theory Spec2Isabelle
  imports Complex_Main "HOL-Library.Sublist"
begin

section \<open>Strings and numbers of the host language\<close>

text \<open>
  The pricing calculator is a TypeScript component. Its strings are modelled as
  \<^typ>\<open>string\<close> (ASCII characters) and its integral numbers (the user count, the counts
  parsed from variant options) as \<^typ>\<open>int\<close>. A price is a double: it is modelled by the
  rational it denotes, or by the not-a-number value, and a sum or a product of numbers is
  rounded to the nearest double (53 significant bits, a tie going to the even one). The
  exponent is not bounded in the model, so the infinities and the subnormal numbers are
  outside it.
\<close>

datatype number = Num rat | NaN

fun bitLength :: "nat \<Rightarrow> nat" where
  \<comment> \<open>the number of binary digits of a natural number\<close>
  "bitLength n = (if n = 0 then 0 else Suc (bitLength (n div 2)))"

declare bitLength.simps [simp del]

definition roundHalfEven :: "rat \<Rightarrow> int" where
  \<comment> \<open>the nearest integer, a tie going to the even one\<close>
  "roundHalfEven x =
     (let f = \<lfloor>x\<rfloor>; d = x - of_int f
      in if d < 1 / 2 then f else if 1 / 2 < d then f + 1 else if even f then f else f + 1)"

definition binaryExponent :: "rat \<Rightarrow> int" where
  \<comment> \<open>for a positive number, the \<open>e\<close> with \<open>2 ^ e \<le> a < 2 ^ (e + 1)\<close>\<close>
  "binaryExponent a =
     (if 1 \<le> a then int (bitLength (nat \<lfloor>a\<rfloor>)) - 1
      else - int (bitLength (nat (\<lceil>1 / a\<rceil> - 1))))"

definition toDouble :: "rat \<Rightarrow> rat" where
  \<comment> \<open>the double nearest to a rational: its significand rounded to 53 bits\<close>
  "toDouble x =
     (if x = 0 then 0
      else
        let e = binaryExponent \<bar>x\<bar> - 52;
            m = roundHalfEven (\<bar>x\<bar> / 2 powi e)
        in (if x < 0 then - 1 else 1) * of_int m * 2 powi e)"

definition numAdd :: "number \<Rightarrow> number \<Rightarrow> number" where
  \<comment> \<open>\<^verbatim>\<open>a + b\<close> on numbers: the exact sum, rounded\<close>
  "numAdd a b =
     (case a of NaN \<Rightarrow> NaN
      | Num x \<Rightarrow> (case b of NaN \<Rightarrow> NaN | Num y \<Rightarrow> Num (toDouble (x + y))))"

definition numOfInt :: "int \<Rightarrow> number" where
  \<comment> \<open>the number that an integral product such as \<^verbatim>\<open>USER_PRICE * userCount\<close> yields\<close>
  "numOfInt n = Num (toDouble (of_int n))"

definition numHalf :: "number \<Rightarrow> number" where
  \<comment> \<open>\<^verbatim>\<open>x / 2\<close>: halving a double is exact\<close>
  "numHalf a = (case a of NaN \<Rightarrow> NaN | Num x \<Rightarrow> Num (x / 2))"

definition numLe :: "number \<Rightarrow> rat \<Rightarrow> bool" where
  \<comment> \<open>\<^verbatim>\<open>x <= c\<close>: false on NaN\<close>
  "numLe a c = (case a of NaN \<Rightarrow> False | Num x \<Rightarrow> x \<le> c)"

definition mathRound :: "number \<Rightarrow> number" where
  \<comment> \<open>\<^verbatim>\<open>Math.round\<close>: the nearest integer, a tie going up\<close>
  "mathRound a = (case a of NaN \<Rightarrow> NaN | Num x \<Rightarrow> Num (of_int \<lfloor>x + 1 / 2\<rfloor>))"

definition str_includes :: "string \<Rightarrow> string \<Rightarrow> bool" where
  \<comment> \<open>\<^verbatim>\<open>s.includes(t)\<close>: t occurs in s as a contiguous run\<close>
  "str_includes s t = sublist t s"

definition upperCase :: string where
  "upperCase = ''ABCDEFGHIJKLMNOPQRSTUVWXYZ''"

definition lowerCase :: string where
  "lowerCase = ''abcdefghijklmnopqrstuvwxyz''"

definition lowerChar :: "char \<Rightarrow> char" where
  "lowerChar c = (case map_of (zip upperCase lowerCase) c of Some d \<Rightarrow> d | None \<Rightarrow> c)"

definition toLowerCase :: "string \<Rightarrow> string" where
  "toLowerCase s = map lowerChar s"

fun indexOf :: "'a \<Rightarrow> 'a list \<Rightarrow> nat option" where
  "indexOf c [] = None"
| "indexOf c (d # ds) = (if c = d then Some 0 else map_option Suc (indexOf c ds))"

definition digitVal :: "char \<Rightarrow> nat option" where
  \<comment> \<open>the value of a digit in radix up to 36, letters in either case\<close>
  "digitVal c = indexOf (lowerChar c) (''0123456789'' @ lowerCase)"

definition isWhite :: "char \<Rightarrow> bool" where
  "isWhite c = (c \<in> set [CHR '' '', CHR 0x09, CHR 0x0A, CHR 0x0B, CHR 0x0C, CHR 0x0D])"

fun digitsValue :: "nat \<Rightarrow> nat \<Rightarrow> string \<Rightarrow> nat" where
  \<comment> \<open>the value of the longest run of digits of the radix at the front, from an accumulator\<close>
  "digitsValue r acc [] = acc"
| "digitsValue r acc (c # cs) =
     (case digitVal c of
        None \<Rightarrow> acc
      | Some d \<Rightarrow> if d < r then digitsValue r (acc * r + d) cs else acc)"

definition isDigitOf :: "nat \<Rightarrow> char \<Rightarrow> bool" where
  "isDigitOf r c = (case digitVal c of None \<Rightarrow> False | Some d \<Rightarrow> d < r)"

definition hexPrefix :: "string \<Rightarrow> bool" where
  "hexPrefix s = (prefix ''0x'' s \<or> prefix ''0X'' s)"

definition parseInt :: "string \<Rightarrow> nat option \<Rightarrow> int option" where
  \<comment> \<open>\<^verbatim>\<open>Number.parseInt(s, radix)\<close>; \<open>None\<close> is the result NaN. Leading white space is
      skipped, one sign is read, a radix of 16 (or none given) strips a \<^verbatim>\<open>0x\<close>
      prefix, and the digits are read up to the first character that is not one.\<close>
  "parseInt s radix =
     (let t = dropWhile isWhite s;
          neg = (case t of c # _ \<Rightarrow> c = CHR ''-'' | [] \<Rightarrow> False);
          t1 = (case t of c # cs \<Rightarrow> if c = CHR ''+'' \<or> c = CHR ''-'' then cs else t | [] \<Rightarrow> t);
          r0 = (case radix of None \<Rightarrow> 0 | Some r \<Rightarrow> r)
      in if r0 \<noteq> 0 \<and> (r0 < 2 \<or> 36 < r0) then None
         else
           let strip = ((r0 = 0 \<or> r0 = 16) \<and> hexPrefix t1);
               r = (if strip then 16 else if r0 = 0 then 10 else r0);
               t2 = (if strip then drop 2 t1 else t1)
           in (case t2 of
                 [] \<Rightarrow> None
               | c # _ \<Rightarrow>
                   if isDigitOf r c
                   then Some ((if neg then - 1 else 1) * int (digitsValue r 0 t2))
                   else None))"

fun natDigits :: "nat \<Rightarrow> string" where
  "natDigits n =
     (if n < 10 then [''0123456789'' ! n]
      else natDigits (n div 10) @ [''0123456789'' ! (n mod 10)])"

declare natDigits.simps [simp del]

definition toString :: "int \<Rightarrow> string" where
  \<comment> \<open>\<^verbatim>\<open>n.toString()\<close> of an integral number below 10^21: its decimal digits\<close>
  "toString n = (if n < 0 then CHR ''-'' # natDigits (nat (- n)) else natDigits (nat n))"

section \<open>Data model\<close>

text \<open>
  The catalog product and its variants, as the component reads them: the handle and the
  description of a product and the option list of a variant may be absent. An option is
  a pair of its name and its value.
\<close>

record Variant =
  variant_id :: string
  variant_title :: string
  variant_price :: string
  available :: bool
  selectedOptions :: "(string \<times> string) list option"

record ShopifyProduct =
  product_id :: string
  product_title :: string
  product_description :: "string option"
  product_handle :: "string option"
  variants :: "Variant list"

record PricingOption =
  opt_id :: string
  opt_name :: string
  opt_description :: "string option"
  opt_price :: number
  opt_handle :: "string option"

definition USER_PRICE :: int where
  "USER_PRICE = 50"

section \<open>Tier classifier\<close>

definition handleIncludes :: "string option \<Rightarrow> string \<Rightarrow> bool" where
  \<comment> \<open>\<^verbatim>\<open>option.handle && option.handle.includes(t)\<close>: an absent or empty handle is falsy\<close>
  "handleIncludes h t = (case h of None \<Rightarrow> False | Some s \<Rightarrow> s \<noteq> [] \<and> str_includes s t)"

definition getDisplayTitle :: "PricingOption \<Rightarrow> string" where
  "getDisplayTitle option =
     (if handleIncludes (opt_handle option) ''starter'' then ''Starter''
      else if handleIncludes (opt_handle option) ''custom'' then ''Essential''
      else if handleIncludes (opt_handle option) ''premium'' then ''Premium''
      else
        let i = toLowerCase (opt_id option) in
        if str_includes i ''starter'' then ''Starter''
        else if str_includes i ''custom'' \<or> str_includes i ''essential'' then ''Essential''
        else if str_includes i ''premium'' then ''Premium''
        else if opt_name option = ''Starter'' \<or> opt_name option = ''Essential''
                \<or> opt_name option = ''Premium'' then opt_name option
        else if numLe (opt_price option) 950 then ''Starter''
        else if numLe (opt_price option) 1450 then ''Essential''
        else ''Premium'')"

definition metadataDecides :: "PricingOption \<Rightarrow> bool" where
  \<comment> \<open>one of the handle, id and name tests of \<^verbatim>\<open>getDisplayTitle\<close> succeeds, so that the
      price bands are not consulted\<close>
  "metadataDecides option =
     (handleIncludes (opt_handle option) ''starter''
      \<or> handleIncludes (opt_handle option) ''custom''
      \<or> handleIncludes (opt_handle option) ''premium''
      \<or> str_includes (toLowerCase (opt_id option)) ''starter''
      \<or> str_includes (toLowerCase (opt_id option)) ''custom''
      \<or> str_includes (toLowerCase (opt_id option)) ''essential''
      \<or> str_includes (toLowerCase (opt_id option)) ''premium''
      \<or> opt_name option = ''Starter'' \<or> opt_name option = ''Essential''
      \<or> opt_name option = ''Premium'')"

definition priceBand :: "number \<Rightarrow> string" where
  \<comment> \<open>the last three lines of \<^verbatim>\<open>getDisplayTitle\<close>\<close>
  "priceBand price =
     (if numLe price 950 then ''Starter'' else if numLe price 1450 then ''Essential''
      else ''Premium'')"

section \<open>Variant resolver\<close>

definition premiumQuoteVariant :: string where
  "premiumQuoteVariant = ''gid://shopify/ProductVariant/44872062795961''"

definition essentialQuoteVariant :: string where
  "essentialQuoteVariant = ''gid://shopify/ProductVariant/44872056373433''"

definition starterQuoteVariant :: string where
  "starterQuoteVariant = ''gid://shopify/ProductVariant/44872043167929''"

definition countOption :: "Variant \<Rightarrow> (string \<times> string) option" where
  \<comment> \<open>\<^verbatim>\<open>variant.selectedOptions.find((option) => option.name === "User Count")\<close>,
      nothing when the variant has no option list\<close>
  "countOption variant =
     (case selectedOptions variant of
        None \<Rightarrow> None
      | Some opts \<Rightarrow> find (\<lambda>option. fst option = ''User Count'') opts)"

definition extractUserCount :: "Variant \<Rightarrow> int" where
  "extractUserCount variant =
     (case countOption variant of
        None \<Rightarrow> 0
      | Some option \<Rightarrow> (case parseInt (snd option) (Some 10) of None \<Rightarrow> 0 | Some count \<Rightarrow> count))"

text \<open>
  \<^verbatim>\<open>Array.prototype.sort\<close> with a comparator is a stable sort: an element goes before
  another when the comparator is negative, and elements it calls equal keep their order.
\<close>

fun insertBy :: "('a \<Rightarrow> 'a \<Rightarrow> int) \<Rightarrow> 'a \<Rightarrow> 'a list \<Rightarrow> 'a list" where
  "insertBy cmp x [] = [x]"
| "insertBy cmp x (y # ys) = (if cmp x y \<le> 0 then x # y # ys else y # insertBy cmp x ys)"

definition sortBy :: "('a \<Rightarrow> 'a \<Rightarrow> int) \<Rightarrow> 'a list \<Rightarrow> 'a list" where
  "sortBy cmp xs = foldr (insertBy cmp) xs []"

definition isExactMatch :: "int \<Rightarrow> Variant \<Rightarrow> bool" where
  "isExactMatch userCount variant =
     (case selectedOptions variant of
        None \<Rightarrow> False
      | Some opts \<Rightarrow>
          list_ex (\<lambda>option. fst option = ''User Count'' \<and> snd option = toString userCount) opts)"

definition isValidVariant :: "int \<Rightarrow> Variant \<Rightarrow> bool" where
  "isValidVariant userCount variant =
     (case countOption variant of
        None \<Rightarrow> False
      | Some option \<Rightarrow>
          (case parseInt (snd option) (Some 10) of
             None \<Rightarrow> False
           | Some count \<Rightarrow> count \<le> userCount))"

definition productAsOption :: "ShopifyProduct \<Rightarrow> PricingOption" where
  \<comment> \<open>the object the resolver hands to \<^verbatim>\<open>getDisplayTitle\<close>\<close>
  "productAsOption product =
     \<lparr>opt_id = product_id product,
      opt_name = product_title product,
      opt_description = Some (case product_description product of None \<Rightarrow> [] | Some d \<Rightarrow> d),
      opt_price = Num 0,
      opt_handle = product_handle product\<rparr>"

definition findVariantForUserCount :: "ShopifyProduct \<Rightarrow> int \<Rightarrow> string option" where
  \<comment> \<open>\<open>None\<close> is the result \<^verbatim>\<open>null\<close>\<close>
  "findVariantForUserCount product userCount =
     (case variants product of
        [] \<Rightarrow> None
      | first # _ \<Rightarrow>
          if userCount > 50 then
            let productType = getDisplayTitle (productAsOption product)
            in if productType = ''Premium'' then Some premiumQuoteVariant
               else if productType = ''Essential'' then Some essentialQuoteVariant
               else if productType = ''Starter'' then Some starterQuoteVariant
               else Some (variant_id first)
          else
            (case find (isExactMatch userCount) (variants product) of
               Some exactMatch \<Rightarrow> Some (variant_id exactMatch)
             | None \<Rightarrow>
                 let validVariants =
                       sortBy (\<lambda>a b. extractUserCount b - extractUserCount a)
                         (filter (isValidVariant userCount) (variants product))
                 in (case validVariants of
                       v # _ \<Rightarrow> if variant_id v = [] then None else Some (variant_id v)
                     | [] \<Rightarrow> Some (variant_id first))))"

section \<open>Component state, normalizer and price calculator\<close>

record CalcState =
  products :: "ShopifyProduct list option"
  animationPackages :: "PricingOption list"
  selectedAnimation :: string
  userCount :: int
  totalPrice :: number
  isCustomPricing :: bool
  isSubmitting :: bool
  error :: "string option"

definition initialState :: "ShopifyProduct list option \<Rightarrow> CalcState" where
  \<comment> \<open>the \<^verbatim>\<open>useState\<close> initial values\<close>
  "initialState initialProducts =
     \<lparr>products = initialProducts, animationPackages = [], selectedAnimation = [],
      userCount = 1, totalPrice = Num 0, isCustomPricing = False, isSubmitting = False,
      error = None\<rparr>"

definition formatPackage :: "(string \<Rightarrow> number) \<Rightarrow> ShopifyProduct \<Rightarrow> PricingOption" where
  \<comment> \<open>the body of the \<^verbatim>\<open>products.map\<close> callback; \<^verbatim>\<open>Number.parseFloat\<close> is a parameter\<close>
  "formatPackage parseFloat product =
     (let basePrice = (case variants product of
                         [] \<Rightarrow> Num 0
                       | v # _ \<Rightarrow> parseFloat (variant_price v))
      in \<lparr>opt_id = product_id product,
          opt_name = product_title product,
          opt_description = product_description product,
          opt_price = basePrice,
          opt_handle = product_handle product\<rparr>)"

definition processProducts :: "(string \<Rightarrow> number) \<Rightarrow> CalcState \<Rightarrow> CalcState" where
  \<comment> \<open>the effect on \<^verbatim>\<open>[products]\<close>\<close>
  "processProducts parseFloat st =
     (case products st of
        None \<Rightarrow> st
      | Some ps \<Rightarrow> st\<lparr>animationPackages := map (formatPackage parseFloat) ps\<rparr>)"

definition calculateTotal :: "CalcState \<Rightarrow> CalcState" where
  \<comment> \<open>the effect on \<^verbatim>\<open>[selectedAnimation, userCount, animationPackages]\<close>\<close>
  "calculateTotal st =
     (case find (\<lambda>p. opt_id p = selectedAnimation st) (animationPackages st) of
        None \<Rightarrow> st\<lparr>totalPrice := Num 0\<rparr>
      | Some selectedPackage \<Rightarrow>
          if userCount st > 50 then st\<lparr>isCustomPricing := True\<rparr>
          else st\<lparr>isCustomPricing := False,
                  totalPrice := numAdd (opt_price selectedPackage)
                                  (numOfInt (USER_PRICE * userCount st))\<rparr>)"

definition depositShown :: "CalcState \<Rightarrow> number" where
  \<comment> \<open>\<^verbatim>\<open>Math.round(totalPrice / 2)\<close>\<close>
  "depositShown st = mathRound (numHalf (totalPrice st))"

definition submitDisabled :: "CalcState \<Rightarrow> bool" where
  \<comment> \<open>\<^verbatim>\<open>disabled={isSubmitting || !selectedAnimation}\<close>\<close>
  "submitDisabled st = (isSubmitting st \<or> selectedAnimation st = [])"

section \<open>Checkout handoff\<close>

text \<open>
  \<^verbatim>\<open>createCart\<close> belongs to the commerce client: it is a parameter, answering a request
  with a cart or with the message of the error it throws. The handler's outcome is the
  state it leaves, the requests it sent and the address it redirected to, if any. The
  handler is taken as one step: no other event runs while it waits for the cart.
\<close>

record CartRequest =
  req_variantId :: string
  req_quantity :: int
  req_customAttributes :: "(string \<times> string) list"
  req_sellingPlanId :: string

record Cart =
  checkoutUrl :: string

record Outcome =
  newState :: CalcState
  cartRequests :: "CartRequest list"
  redirect :: "string option"

definition failWith :: "CalcState \<Rightarrow> string \<Rightarrow> CartRequest list \<Rightarrow> Outcome" where
  \<comment> \<open>the \<^verbatim>\<open>catch\<close> and \<^verbatim>\<open>finally\<close> blocks, after the two setters at the top\<close>
  "failWith st message reqs =
     \<lparr>newState = st\<lparr>isSubmitting := False, error := Some (''Error: '' @ message)\<rparr>,
      cartRequests = reqs, redirect = None\<rparr>"

definition handleGetStarted :: "(CartRequest \<Rightarrow> string + Cart) \<Rightarrow> CalcState \<Rightarrow> Outcome" where
  "handleGetStarted createCart st =
     (case find (\<lambda>p. opt_id p = selectedAnimation st) (animationPackages st) of
        None \<Rightarrow> failWith st ''Selected package not found'' []
      | Some selectedPackage \<Rightarrow>
          (case (case products st of
                   None \<Rightarrow> None
                 | Some ps \<Rightarrow> find (\<lambda>p. product_id p = selectedAnimation st) ps) of
             None \<Rightarrow> failWith st ''Product not found'' []
           | Some product \<Rightarrow>
               (case findVariantForUserCount product (userCount st) of
                  None \<Rightarrow>
                    failWith st (''No variant found for user count: '' @ toString (userCount st)) []
                | Some variantId \<Rightarrow>
                    if variantId = [] then
                      failWith st
                        (''No variant found for user count: '' @ toString (userCount st)) []
                    else
                      let request =
                            \<lparr>req_variantId = variantId, req_quantity = 1,
                             req_customAttributes = [(''User Count'', toString (userCount st))],
                             req_sellingPlanId = ''gid://shopify/SellingPlan/3226403001''\<rparr>
                      in (case createCart request of
                            Inl message \<Rightarrow> failWith st message [request]
                          | Inr cart \<Rightarrow>
                              \<lparr>newState = st\<lparr>isSubmitting := False, error := None\<rparr>,
                               cartRequests = [request],
                               redirect = Some (checkoutUrl cart)\<rparr>))))"

section \<open>Events of a session\<close>

datatype event =
    DecrementClick
  | IncrementClick
  | CountInput string
  | SelectAnimation string
  | ProductsChanged "ShopifyProduct list"
  | GetStartedClick "CartRequest \<Rightarrow> string + Cart"

definition handleEvent :: "event \<Rightarrow> CalcState \<Rightarrow> CalcState" where
  \<comment> \<open>the event handlers of the rendered controls\<close>
  "handleEvent ev st =
     (case ev of
        DecrementClick \<Rightarrow> st\<lparr>userCount := max 1 (userCount st - 1)\<rparr>
      | IncrementClick \<Rightarrow> st\<lparr>userCount := userCount st + 1\<rparr>
      | CountInput text \<Rightarrow>
          (case parseInt text None of
             None \<Rightarrow> st
           | Some v \<Rightarrow> st\<lparr>userCount := max 1 v\<rparr>)
      | SelectAnimation i \<Rightarrow> st\<lparr>selectedAnimation := i\<rparr>
      | ProductsChanged ps \<Rightarrow> st\<lparr>products := Some ps\<rparr>
      | GetStartedClick createCart \<Rightarrow> newState (handleGetStarted createCart st))"

definition step :: "(string \<Rightarrow> number) \<Rightarrow> CalcState \<Rightarrow> event \<Rightarrow> CalcState" where
  \<comment> \<open>an event, then the two effects\<close>
  "step parseFloat st ev = calculateTotal (processProducts parseFloat (handleEvent ev st))"

definition run :: "(string \<Rightarrow> number) \<Rightarrow> ShopifyProduct list option \<Rightarrow> event list \<Rightarrow> CalcState" where
  \<comment> \<open>the state after the first render's effects and a sequence of events\<close>
  "run parseFloat initialProducts evs =
     foldl (step parseFloat)
       (calculateTotal (processProducts parseFloat (initialState initialProducts))) evs"

section \<open>Reference resolver\<close>

text \<open>
  The resolution rules for user counts up to 50 as the specification words them, kept
  apart from \<^const>\<open>findVariantForUserCount\<close>: the choice names the rule that selected
  the variant.
\<close>

datatype rule = ExactMatch | ClosestBelow | FirstVariant

definition optionsOf :: "Variant \<Rightarrow> (string \<times> string) list" where
  "optionsOf v = (case selectedOptions v of None \<Rightarrow> [] | Some opts \<Rightarrow> opts)"

definition specUserCount :: "Variant \<Rightarrow> int option" where
  \<comment> \<open>the integer that the variant's "User Count" option parses to, if any\<close>
  "specUserCount v =
     (case map_of (optionsOf v) ''User Count'' of
        None \<Rightarrow> None
      | Some s \<Rightarrow> parseInt s (Some 10))"

definition referenceChoice :: "ShopifyProduct \<Rightarrow> int \<Rightarrow> (rule \<times> Variant) option" where
  "referenceChoice p u =
     (case find (\<lambda>v. (''User Count'', toString u) \<in> set (optionsOf v)) (variants p) of
        Some v \<Rightarrow> Some (ExactMatch, v)
      | None \<Rightarrow>
          let below = filter (\<lambda>v. case specUserCount v of None \<Rightarrow> False | Some c \<Rightarrow> c \<le> u)
                        (variants p)
          in if below \<noteq> []
             then map_option (Pair ClosestBelow)
                    (find (\<lambda>v. specUserCount v
                                 = Some (Max (set (List.map_filter specUserCount below))))
                       below)
             else (case variants p of [] \<Rightarrow> None | v # _ \<Rightarrow> Some (FirstVariant, v)))"

definition referenceResolve :: "ShopifyProduct \<Rightarrow> int \<Rightarrow> string option" where
  \<comment> \<open>the id of the chosen variant\<close>
  "referenceResolve p u = map_option (\<lambda>c. variant_id (snd c)) (referenceChoice p u)"

section \<open>Sample catalog entries\<close>

definition zeroVariantProduct :: ShopifyProduct where
  "zeroVariantProduct =
     \<lparr>product_id = ''gid://shopify/Product/1'', product_title = ''Premium'',
      product_description = None, product_handle = Some ''premium-signature'',
      variants = []\<rparr>"

definition unlabelledProduct :: ShopifyProduct where
  "unlabelledProduct =
     \<lparr>product_id = ''gid://shopify/Product/7'', product_title = ''Signature Gold'',
      product_description = None, product_handle = Some ''signature-gold'',
      variants = [\<lparr>variant_id = ''gid://shopify/ProductVariant/70'', variant_title = ''1'',
                   variant_price = ''2000.0'', available = True,
                   selectedOptions = Some [(''User Count'', ''1'')]\<rparr>]\<rparr>"

definition premiumProduct :: ShopifyProduct where
  "premiumProduct =
     \<lparr>product_id = ''gid://shopify/Product/9'', product_title = ''Signature'',
      product_description = Some ''Animated'', product_handle = Some ''premium-signature'',
      variants = [\<lparr>variant_id = ''gid://shopify/ProductVariant/90'', variant_title = ''1'',
                   variant_price = ''1500.0'', available = True,
                   selectedOptions = Some [(''User Count'', ''1'')]\<rparr>]\<rparr>"

definition premiumStarterOption :: PricingOption where
  "premiumStarterOption =
     \<lparr>opt_id = ''gid://shopify/Product/3'', opt_name = ''Signature'', opt_description = None,
      opt_price = Num 2000, opt_handle = Some ''premium-starter-kit''\<rparr>"

definition premiumOption :: PricingOption where
  "premiumOption =
     \<lparr>opt_id = ''gid://shopify/Product/4'', opt_name = ''Signature'', opt_description = None,
      opt_price = Num 100, opt_handle = Some ''premium-signature''\<rparr>"

definition starterProduct :: ShopifyProduct where
  "starterProduct =
     \<lparr>product_id = ''gid://shopify/Product/5'', product_title = ''Signature'',
      product_description = None, product_handle = Some ''starter-signature'',
      variants = [\<lparr>variant_id = ''v1'', variant_title = ''1 user'',
                   variant_price = ''800.0'', available = True,
                   selectedOptions = Some [(''User Count'', ''1'')]\<rparr>]\<rparr>"

definition starterSelected :: CalcState where
  "starterSelected =
     run (\<lambda>s. Num 800) (Some [starterProduct]) [SelectAnimation ''gid://shopify/Product/5'']"

definition staleSelection :: CalcState where
  "staleSelection =
     run (\<lambda>s. Num 800) (Some [starterProduct])
       [SelectAnimation ''gid://shopify/Product/5'', CountInput ''51'',
        ProductsChanged [premiumProduct]]"

definition failingCart :: "CartRequest \<Rightarrow> string + Cart" where
  "failingCart request = Inl ''Network error''"

definition tierProduct :: ShopifyProduct where
  "tierProduct =
     \<lparr>product_id = ''gid://shopify/Product/11'', product_title = ''Signature'',
      product_description = None, product_handle = Some ''starter-signature'',
      variants =
        [\<lparr>variant_id = ''v-none'', variant_title = ''Default'', variant_price = ''800.0'',
          available = True, selectedOptions = None\<rparr>,
         \<lparr>variant_id = ''v10'', variant_title = ''10'', variant_price = ''1300.0'',
          available = True, selectedOptions = Some [(''User Count'', ''10'')]\<rparr>,
         \<lparr>variant_id = ''v20a'', variant_title = ''20'', variant_price = ''1800.0'',
          available = True, selectedOptions = Some [(''Colour'', ''red''), (''User Count'', ''20'')]\<rparr>,
         \<lparr>variant_id = ''v40'', variant_title = ''40'', variant_price = ''2800.0'',
          available = True, selectedOptions = Some [(''User Count'', ''40'')]\<rparr>,
         \<lparr>variant_id = ''v20b'', variant_title = ''20 users'', variant_price = ''1800.0'',
          available = True, selectedOptions = Some [(''User Count'', ''20 users'')]\<rparr>,
         \<lparr>variant_id = ''v-many'', variant_title = ''many'', variant_price = ''1.0'',
          available = True, selectedOptions = Some [(''User Count'', ''many'')]\<rparr>]\<rparr>"

definition emptyIdProduct :: ShopifyProduct where
  "emptyIdProduct =
     \<lparr>product_id = ''gid://shopify/Product/12'', product_title = ''Signature'',
      product_description = None, product_handle = Some ''starter-signature'',
      variants =
        [\<lparr>variant_id = [], variant_title = ''1'', variant_price = ''800.0'',
          available = True, selectedOptions = Some [(''User Count'', ''1'')]\<rparr>]\<rparr>"

definition zeroVariantSelected :: CalcState where
  "zeroVariantSelected =
     run (\<lambda>s. Num 0) (Some [zeroVariantProduct])
       [SelectAnimation ''gid://shopify/Product/1'', CountInput ''10'']"

definition unparsedProduct :: ShopifyProduct where
  "unparsedProduct =
     \<lparr>product_id = ''gid://shopify/Product/13'', product_title = ''Signature'',
      product_description = None, product_handle = Some ''premium-signature'',
      variants =
        [\<lparr>variant_id = ''w-default'', variant_title = ''Default'', variant_price = ''1500.0'',
          available = True, selectedOptions = None\<rparr>,
         \<lparr>variant_id = ''w-many'', variant_title = ''many'', variant_price = ''1500.0'',
          available = True, selectedOptions = Some [(''User Count'', ''many'')]\<rparr>]\<rparr>"

definition roundingState :: CalcState where
  \<comment> \<open>a tier whose base price is the double nearest to 500.03, and 31 users\<close>
  "roundingState =
     \<lparr>products = Some [starterProduct],
      animationPackages =
        [\<lparr>opt_id = ''gid://shopify/Product/5'', opt_name = ''Signature'',
          opt_description = None, opt_price = Num (2199155196947333 / 2 ^ 42),
          opt_handle = Some ''starter-signature''\<rparr>],
      selectedAnimation = ''gid://shopify/Product/5'', userCount = 31,
      totalPrice = Num 0, isCustomPricing = False, isSubmitting = False, error = None\<rparr>"


section \<open>The classifier\<close>

lemma getDisplayTitle_range:
  "getDisplayTitle option \<in> {''Premium'', ''Essential'', ''Starter''}"
  by (simp add: getDisplayTitle_def Let_def)

lemma getDisplayTitle_metadata:
  assumes "metadataDecides a"
    and "opt_handle b = opt_handle a" and "opt_id b = opt_id a" and "opt_name b = opt_name a"
  shows "getDisplayTitle b = getDisplayTitle a"
  using assms by (auto simp: getDisplayTitle_def metadataDecides_def Let_def)

lemma getDisplayTitle_priceBand:
  "\<not> metadataDecides option \<Longrightarrow> getDisplayTitle option = priceBand (opt_price option)"
  by (simp add: getDisplayTitle_def metadataDecides_def priceBand_def Let_def)

lemma getDisplayTitle_cong:
  assumes "opt_handle b = opt_handle a" and "opt_id b = opt_id a" and "opt_name b = opt_name a"
    and "opt_price b = opt_price a"
  shows "getDisplayTitle b = getDisplayTitle a"
  using assms by (simp add: getDisplayTitle_def Let_def)

lemma large_order:
  assumes "variants p \<noteq> []" and "50 < u"
  shows "findVariantForUserCount p u =
    Some (if getDisplayTitle (productAsOption p) = ''Premium'' then premiumQuoteVariant
          else if getDisplayTitle (productAsOption p) = ''Essential'' then essentialQuoteVariant
          else starterQuoteVariant)"
proof -
  obtain v vs where vs: "variants p = v # vs"
    using assms(1) by (cases "variants p") auto
  have "getDisplayTitle (productAsOption p) \<in> {''Premium'', ''Essential'', ''Starter''}"
    by (rule getDisplayTitle_range)
  then show ?thesis
    using assms(2) vs by (auto simp: findVariantForUserCount_def Let_def)
qed

text \<open>
  C6, amended. The classifier is a function of the handle, the id, the name and the price
  of the option: options that agree on the four get the same label. An option whose
  handle contains "premium", and neither "starter" nor "custom", is labelled Premium
  whatever its price is. (The tests on the handle run in the order starter, custom,
  premium, so a handle that also contains "starter" or "custom" takes that label.)
\<close>

theorem C6_classifier:
  assumes "opt_handle option = Some h" and "str_includes h ''premium''"
    and "\<not> str_includes h ''starter''" and "\<not> str_includes h ''custom''"
  shows "(\<forall>price. getDisplayTitle (option\<lparr>opt_price := price\<rparr>) = ''Premium'')
         \<and> (\<forall>other. opt_handle other = opt_handle option \<and> opt_id other = opt_id option
                \<and> opt_name other = opt_name option \<and> opt_price other = opt_price option
              \<longrightarrow> getDisplayTitle other = getDisplayTitle option)"
proof -
  have "h \<noteq> []"
    using assms(2) by (auto simp: str_includes_def)
  then have "getDisplayTitle (option\<lparr>opt_price := price\<rparr>) = ''Premium''" for price
    using assms by (simp add: getDisplayTitle_def handleIncludes_def)
  moreover have "getDisplayTitle other = getDisplayTitle option"
    if "opt_handle other = opt_handle option \<and> opt_id other = opt_id option
        \<and> opt_name other = opt_name option \<and> opt_price other = opt_price option" for other
    using that by (intro getDisplayTitle_cong) simp_all
  ultimately show ?thesis by blast
qed

theorem C6_classifier_witness:
  "opt_handle premiumOption = Some ''premium-signature''
   \<and> str_includes ''premium-signature'' ''premium''
   \<and> \<not> str_includes ''premium-signature'' ''starter''
   \<and> \<not> str_includes ''premium-signature'' ''custom''
   \<and> priceBand (opt_price premiumOption) = ''Starter''
   \<and> getDisplayTitle premiumOption = ''Premium''"
proof -
  have h: "opt_handle premiumOption = Some ''premium-signature''"
    "str_includes ''premium-signature'' ''premium''"
    "\<not> str_includes ''premium-signature'' ''starter''"
    "\<not> str_includes ''premium-signature'' ''custom''"
    by code_simp+
  have b: "priceBand (opt_price premiumOption) = ''Starter''"
    by code_simp
  have "getDisplayTitle (premiumOption\<lparr>opt_price := opt_price premiumOption\<rparr>) = ''Premium''"
    using C6_classifier [OF h] by blast
  then show ?thesis
    using h b by simp
qed

theorem C6_counterexample:
  "opt_handle premiumStarterOption = Some ''premium-starter-kit''
   \<and> str_includes ''premium-starter-kit'' ''premium''
   \<and> getDisplayTitle premiumStarterOption \<noteq> ''Premium''"
  by code_simp

section \<open>Large orders\<close>

lemma metadataDecides_formatPackage:
  "metadataDecides (formatPackage parseFloat p) = metadataDecides (productAsOption p)"
  by (simp add: metadataDecides_def formatPackage_def productAsOption_def)

lemma productAsOption_options:
  "productAsOption (p\<lparr>variants := map (\<lambda>v. v\<lparr>selectedOptions := f v\<rparr>) (variants p)\<rparr>)
     = productAsOption p"
  by (simp add: productAsOption_def)

text \<open>
  C1, amended. For every product with at least one variant and every user count above 50,
  the resolver returns one of the three fixed custom-quote variant ids, whatever the
  option data of the variants is. When the handle, the id or the name of the product
  decides the label of its pricing tier, the id returned is the one of that label. (A
  product without variants gets no id at any user count, and for a tier labelled by its
  price band the id need not be the one of the label.)
\<close>

theorem C1_large_order:
  assumes "variants p \<noteq> []" and "50 < u"
  shows "findVariantForUserCount p u
           \<in> {Some premiumQuoteVariant, Some essentialQuoteVariant, Some starterQuoteVariant}
         \<and> (\<forall>parseFloat. metadataDecides (formatPackage parseFloat p) \<longrightarrow>
               findVariantForUserCount p u =
                 Some (if getDisplayTitle (formatPackage parseFloat p) = ''Premium''
                       then premiumQuoteVariant
                       else if getDisplayTitle (formatPackage parseFloat p) = ''Essential''
                       then essentialQuoteVariant else starterQuoteVariant))
         \<and> (\<forall>f. findVariantForUserCount
                   (p\<lparr>variants := map (\<lambda>v. v\<lparr>selectedOptions := f v\<rparr>) (variants p)\<rparr>) u
                 = findVariantForUserCount p u)"
proof -
  let ?r = "\<lambda>l. Some (if l = ''Premium'' then premiumQuoteVariant
                   else if l = ''Essential'' then essentialQuoteVariant
                   else starterQuoteVariant)"
  have eq: "findVariantForUserCount p u = ?r (getDisplayTitle (productAsOption p))"
    using assms by (rule large_order)
  have range: "findVariantForUserCount p u
           \<in> {Some premiumQuoteVariant, Some essentialQuoteVariant, Some starterQuoteVariant}"
    unfolding eq by simp
  have tier: "findVariantForUserCount p u = ?r (getDisplayTitle (formatPackage parseFloat p))"
    if m: "metadataDecides (formatPackage parseFloat p)" for parseFloat
  proof -
    have "metadataDecides (productAsOption p)"
      using m by (simp only: metadataDecides_formatPackage)
    then have "getDisplayTitle (formatPackage parseFloat p)
                 = getDisplayTitle (productAsOption p)"
      by (rule getDisplayTitle_metadata)
        (simp_all add: productAsOption_def formatPackage_def)
    then show ?thesis
      using eq by simp
  qed
  have opts: "findVariantForUserCount
                (p\<lparr>variants := map (\<lambda>v. v\<lparr>selectedOptions := f v\<rparr>) (variants p)\<rparr>) u
              = findVariantForUserCount p u" for f
  proof -
    let ?q = "p\<lparr>variants := map (\<lambda>v. v\<lparr>selectedOptions := f v\<rparr>) (variants p)\<rparr>"
    have "variants ?q \<noteq> []"
      using assms(1) by simp
    then have "findVariantForUserCount ?q u = ?r (getDisplayTitle (productAsOption ?q))"
      using assms(2) by (rule large_order)
    then show ?thesis
      using eq by (simp only: productAsOption_options)
  qed
  show ?thesis
  proof (intro conjI allI impI)
    show "findVariantForUserCount p u
           \<in> {Some premiumQuoteVariant, Some essentialQuoteVariant, Some starterQuoteVariant}"
      by (rule range)
  next
    fix parseFloat
    assume "metadataDecides (formatPackage parseFloat p)"
    then show "findVariantForUserCount p u =
                 Some (if getDisplayTitle (formatPackage parseFloat p) = ''Premium''
                       then premiumQuoteVariant
                       else if getDisplayTitle (formatPackage parseFloat p) = ''Essential''
                       then essentialQuoteVariant else starterQuoteVariant)"
      by (rule tier)
  next
    fix f
    show "findVariantForUserCount
            (p\<lparr>variants := map (\<lambda>v. v\<lparr>selectedOptions := f v\<rparr>) (variants p)\<rparr>) u
          = findVariantForUserCount p u"
      by (rule opts)
  qed
qed

theorem C1_large_order_witness:
  "variants premiumProduct \<noteq> [] \<and> (50::int) < 75
   \<and> metadataDecides (formatPackage (\<lambda>s. Num 1500) premiumProduct)
   \<and> getDisplayTitle (formatPackage (\<lambda>s. Num 1500) premiumProduct) = ''Premium''
   \<and> findVariantForUserCount premiumProduct 75 = Some premiumQuoteVariant"
proof -
  have h: "variants premiumProduct \<noteq> []" "(50::int) < 75"
    by (simp_all add: premiumProduct_def)
  have m: "metadataDecides (formatPackage (\<lambda>s. Num 1500) premiumProduct)"
    by code_simp
  have l: "getDisplayTitle (formatPackage (\<lambda>s. Num 1500) premiumProduct) = ''Premium''"
    by code_simp
  have "\<forall>parseFloat. metadataDecides (formatPackage parseFloat premiumProduct) \<longrightarrow>
          findVariantForUserCount premiumProduct 75 =
            Some (if getDisplayTitle (formatPackage parseFloat premiumProduct) = ''Premium''
                  then premiumQuoteVariant
                  else if getDisplayTitle (formatPackage parseFloat premiumProduct) = ''Essential''
                  then essentialQuoteVariant else starterQuoteVariant)"
    using C1_large_order [OF h] by (elim conjE)
  then have "findVariantForUserCount premiumProduct 75 =
            Some (if getDisplayTitle (formatPackage (\<lambda>s. Num 1500) premiumProduct) = ''Premium''
                  then premiumQuoteVariant
                  else if getDisplayTitle (formatPackage (\<lambda>s. Num 1500) premiumProduct)
                          = ''Essential''
                  then essentialQuoteVariant else starterQuoteVariant)"
    using m by blast
  then show ?thesis
    using h m l by simp
qed

theorem C1_counterexample:
  "(50::int) < 51 \<and> findVariantForUserCount zeroVariantProduct 51 = None
   \<and> variants unlabelledProduct \<noteq> [] \<and> (50::int) < 60
   \<and> getDisplayTitle (formatPackage (\<lambda>s. Num 2000) unlabelledProduct) = ''Premium''
   \<and> findVariantForUserCount unlabelledProduct 60 = Some starterQuoteVariant
   \<and> getDisplayTitle (formatPackage (\<lambda>s. Num 1500) premiumProduct) = ''Premium''
   \<and> findVariantForUserCount premiumProduct 60 = Some premiumQuoteVariant
   \<and> starterQuoteVariant \<noteq> premiumQuoteVariant"
  by code_simp

text \<open>
  C7. For every product with at least one variant and every user count above 50, the
  label the resolver computes is one of the three the if-chain tests, so the branch that
  falls back to the first variant is never taken and one of the three custom-quote ids is
  returned. The resolver classifies with price 0: when no handle, id or name test
  succeeds, the price band gives Starter and the Starter id is returned, while the label
  of the product's pricing tier is the band of its own base price.
\<close>

theorem C7_price_zero:
  assumes "variants p \<noteq> []" and "50 < u"
  shows "getDisplayTitle (productAsOption p) \<in> {''Premium'', ''Essential'', ''Starter''}
         \<and> findVariantForUserCount p u
             \<in> {Some premiumQuoteVariant, Some essentialQuoteVariant, Some starterQuoteVariant}
         \<and> (\<not> metadataDecides (productAsOption p) \<longrightarrow>
               getDisplayTitle (productAsOption p) = ''Starter''
               \<and> findVariantForUserCount p u = Some starterQuoteVariant
               \<and> (\<forall>parseFloat. getDisplayTitle (formatPackage parseFloat p)
                     = priceBand (opt_price (formatPackage parseFloat p))))"
proof -
  have range: "getDisplayTitle (productAsOption p) \<in> {''Premium'', ''Essential'', ''Starter''}"
    by (rule getDisplayTitle_range)
  have eq: "findVariantForUserCount p u =
    Some (if getDisplayTitle (productAsOption p) = ''Premium'' then premiumQuoteVariant
          else if getDisplayTitle (productAsOption p) = ''Essential'' then essentialQuoteVariant
          else starterQuoteVariant)"
    using assms by (rule large_order)
  have starter: "getDisplayTitle (productAsOption p) = ''Starter''"
    if "\<not> metadataDecides (productAsOption p)"
    using getDisplayTitle_priceBand [OF that]
    by (simp add: priceBand_def productAsOption_def numLe_def)
  have tier: "getDisplayTitle (formatPackage parseFloat p)
                = priceBand (opt_price (formatPackage parseFloat p))"
    if "\<not> metadataDecides (productAsOption p)" for parseFloat
  proof -
    have "\<not> metadataDecides (formatPackage parseFloat p)"
      using that by (simp add: metadataDecides_def productAsOption_def formatPackage_def)
    then show ?thesis by (rule getDisplayTitle_priceBand)
  qed
  have "findVariantForUserCount p u
           \<in> {Some premiumQuoteVariant, Some essentialQuoteVariant, Some starterQuoteVariant}"
    unfolding eq by simp
  moreover have "findVariantForUserCount p u = Some starterQuoteVariant"
    if "\<not> metadataDecides (productAsOption p)"
    unfolding eq using starter [OF that] by simp
  ultimately show ?thesis
    using range starter tier by (intro conjI allI impI) blast+
qed

theorem C7_price_zero_witness:
  "variants unlabelledProduct \<noteq> [] \<and> (50::int) < 60
   \<and> \<not> metadataDecides (productAsOption unlabelledProduct)
   \<and> findVariantForUserCount unlabelledProduct 60 = Some starterQuoteVariant
   \<and> getDisplayTitle (formatPackage (\<lambda>s. Num 2000) unlabelledProduct) = ''Premium''"
proof -
  have h: "variants unlabelledProduct \<noteq> []" "(50::int) < 60"
    by (simp_all add: unlabelledProduct_def)
  have m: "\<not> metadataDecides (productAsOption unlabelledProduct)"
    by code_simp
  have b: "priceBand (opt_price (formatPackage (\<lambda>s. Num 2000) unlabelledProduct)) = ''Premium''"
    by code_simp
  have "\<not> metadataDecides (productAsOption unlabelledProduct) \<longrightarrow>
          getDisplayTitle (productAsOption unlabelledProduct) = ''Starter''
          \<and> findVariantForUserCount unlabelledProduct 60 = Some starterQuoteVariant
          \<and> (\<forall>parseFloat. getDisplayTitle (formatPackage parseFloat unlabelledProduct)
                     = priceBand (opt_price (formatPackage parseFloat unlabelledProduct)))"
    using C7_price_zero [OF h] by (elim conjE)
  then have "findVariantForUserCount unlabelledProduct 60 = Some starterQuoteVariant"
    and "getDisplayTitle (formatPackage (\<lambda>s. Num 2000) unlabelledProduct)
           = priceBand (opt_price (formatPackage (\<lambda>s. Num 2000) unlabelledProduct))"
    using m by blast+
  then show ?thesis
    using h m b by simp
qed

section \<open>Rounding to doubles\<close>

lemma bitLength_bounds:
  "0 < n \<Longrightarrow> 2 ^ (bitLength n - 1) \<le> n \<and> n < 2 ^ bitLength n"
proof (induction n rule: bitLength.induct)
  case (1 n)
  show ?case
  proof (cases "n div 2 = 0")
    case True
    then have "n = Suc 0"
      using 1 by (auto simp: div_eq_0_iff)
    then show ?thesis
      by (simp add: bitLength.simps [of "Suc 0"] bitLength.simps [of 0])
  next
    case False
    then have ih: "2 ^ (bitLength (n div 2) - 1) \<le> n div 2" "n div 2 < 2 ^ bitLength (n div 2)"
      using 1 by auto
    have pos: "0 < bitLength (n div 2)"
      using False by (simp add: bitLength.simps [of "n div 2"])
    have eq: "bitLength n = Suc (bitLength (n div 2))"
      using 1 by (simp add: bitLength.simps [of n])
    have "2 * 2 ^ (bitLength (n div 2) - 1) \<le> n"
      using ih(1) by linarith
    moreover have "2 * 2 ^ (bitLength (n div 2) - 1) = (2::nat) ^ bitLength (n div 2)"
      using pos by (cases "bitLength (n div 2)") simp_all
    moreover have "n < 2 * 2 ^ bitLength (n div 2)"
      using ih(2) by linarith
    ultimately show ?thesis
      by (simp add: eq)
  qed
qed

lemma bitLength_pos: "0 < n \<Longrightarrow> 0 < bitLength n"
  by (simp add: bitLength.simps [of n])

lemma pow_le_of_nat: "2 ^ k \<le> n \<Longrightarrow> (2::rat) ^ k \<le> of_nat n"
  by (metis of_nat_le_iff of_nat_numeral of_nat_power)

lemma of_nat_lt_pow: "n < 2 ^ k \<Longrightarrow> of_nat n + 1 \<le> (2::rat) ^ k"
proof -
  assume "n < 2 ^ k"
  then have "Suc n \<le> 2 ^ k"
    by simp
  then have "rat_of_nat (Suc n) \<le> of_nat (2 ^ k)"
    by (simp only: of_nat_le_iff)
  then show ?thesis
    by simp
qed

lemma binaryExponent_ge1:
  assumes "1 \<le> a"
  shows "2 powi binaryExponent a \<le> a \<and> a < 2 powi (binaryExponent a + 1)"
proof -
  define n where "n = nat \<lfloor>a\<rfloor>"
  have n: "0 < n"
    using assms by (simp add: n_def)
  have "rat_of_nat n = of_int \<lfloor>a\<rfloor>"
    using assms by (simp add: n_def)
  then have fl: "of_nat n \<le> a" "a < of_nat n + 1"
    using floor_correct [of a] by simp_all
  have b: "2 ^ (bitLength n - 1) \<le> n" "n < 2 ^ bitLength n"
    using bitLength_bounds [OF n] by simp_all
  have e: "binaryExponent a = int (bitLength n - 1)"
    using assms bitLength_pos [OF n] by (simp add: binaryExponent_def n_def)
  have lo: "2 powi binaryExponent a \<le> a"
    using pow_le_of_nat [OF b(1)] fl(1) unfolding e power_int_of_nat by linarith
  have "binaryExponent a + 1 = int (bitLength n)"
    using e bitLength_pos [OF n] by simp
  then have "2 powi (binaryExponent a + 1) = (2::rat) ^ bitLength n"
    by (simp only: power_int_of_nat)
  then have "a < 2 powi (binaryExponent a + 1)"
    using of_nat_lt_pow [OF b(2)] fl(2) by linarith
  then show ?thesis
    using lo by simp
qed

lemma binaryExponent_lt1:
  assumes "0 < a" and "a < 1"
  shows "2 powi binaryExponent a \<le> a \<and> a < 2 powi (binaryExponent a + 1)"
proof -
  define t where "t = 1 / a"
  define m where "m = nat (\<lceil>t\<rceil> - 1)"
  have t: "1 < t"
    using assms by (simp add: t_def)
  then have c: "2 \<le> \<lceil>t\<rceil>"
    by (simp add: less_ceiling_iff)
  then have m: "0 < m"
    by (simp add: m_def)
  have "rat_of_nat m = of_int \<lceil>t\<rceil> - 1"
    using c by (simp add: m_def)
  then have mt: "of_nat m < t" "t \<le> of_nat m + 1"
    using ceiling_correct [of t] by simp_all
  have b: "2 ^ (bitLength m - 1) \<le> m" "m < 2 ^ bitLength m"
    using bitLength_bounds [OF m] by simp_all
  have e: "binaryExponent a = - int (bitLength m)"
    using assms by (simp add: binaryExponent_def m_def t_def)
  have at: "a = 1 / t"
    using assms by (simp add: t_def)
  have tpos: "0 < t"
    using t by simp
  have "t \<le> 2 ^ bitLength m"
    using of_nat_lt_pow [OF b(2)] mt(2) by linarith
  then have "1 / 2 ^ bitLength m \<le> 1 / t"
    using tpos by (simp add: frac_le)
  moreover have "2 powi binaryExponent a = 1 / (2::rat) ^ bitLength m"
    by (simp add: e power_int_minus inverse_eq_divide)
  ultimately have lo: "2 powi binaryExponent a \<le> a"
    using at by linarith
  have "2 ^ (bitLength m - 1) < t"
    using pow_le_of_nat [OF b(1)] mt(1) by linarith
  then have "1 / t < 1 / 2 ^ (bitLength m - 1)"
    by (simp add: frac_less2)
  moreover have "binaryExponent a + 1 = - int (bitLength m - 1)"
    using e bitLength_pos [OF m] by simp
  then have "2 powi (binaryExponent a + 1) = 1 / (2::rat) ^ (bitLength m - 1)"
    by (simp only: power_int_minus power_int_of_nat inverse_eq_divide)
  ultimately have "a < 2 powi (binaryExponent a + 1)"
    using at by linarith
  then show ?thesis
    using lo by simp
qed

lemma binaryExponent_bounds:
  assumes "0 < a"
  shows "2 powi binaryExponent a \<le> a \<and> a < 2 powi (binaryExponent a + 1)"
  using assms binaryExponent_ge1 [of a] binaryExponent_lt1 [of a] by (cases "1 \<le> a") auto

lemma binaryExponent_unique:
  assumes "2 powi e \<le> a" and "a < 2 powi (e + 1)"
  shows "binaryExponent a = e"
proof -
  have pos: "0 < a"
    using assms(1) by (meson less_le_trans zero_less_numeral zero_less_power_int)
  let ?b = "binaryExponent a"
  have b: "2 powi ?b \<le> a" "a < 2 powi (?b + 1)"
    using binaryExponent_bounds [OF pos] by simp_all
  have 1: "e < ?b + 1"
  proof (rule ccontr)
    assume "\<not> e < ?b + 1"
    then have "(2::rat) powi (?b + 1) \<le> 2 powi e"
      by (intro power_int_increasing) simp_all
    then show False
      using assms(1) b(2) by simp
  qed
  have 2: "?b < e + 1"
  proof (rule ccontr)
    assume "\<not> ?b < e + 1"
    then have "(2::rat) powi (e + 1) \<le> 2 powi ?b"
      by (intro power_int_increasing) simp_all
    then show False
      using assms(2) b(1) by simp
  qed
  show ?thesis
    using 1 2 by simp
qed


lemma roundHalfEven_of_int: "roundHalfEven (of_int j) = j"
  by (simp add: roundHalfEven_def)

lemma toDouble_certificate:
  assumes "2 powi e \<le> x" and "x < 2 powi (e + 1)"
  shows "toDouble x = of_int (roundHalfEven (x / 2 powi (e - 52))) * 2 powi (e - 52)"
proof -
  have "0 < x"
    using assms(1) by (meson less_le_trans zero_less_numeral zero_less_power_int)
  moreover have "binaryExponent x = e"
    using assms by (rule binaryExponent_unique)
  ultimately show ?thesis
    by (simp add: toDouble_def Let_def)
qed

lemma toDouble_of_int:
  assumes "0 < n" and "n < 2 ^ 53"
  shows "toDouble (of_int n) = of_int n"
proof -
  define x where "x = rat_of_int n"
  define e where "e = binaryExponent x"
  have "rat_of_int 1 \<le> rat_of_int n"
    using assms(1) by (simp only: of_int_le_iff)
  then have x1: "1 \<le> x"
    by (simp add: x_def)
  have "rat_of_int n < rat_of_int (2 ^ 53)"
    using assms(2) by (simp only: of_int_less_iff)
  then have x53: "x < 2 powi 53"
    unfolding x_def by (simp only: of_int_power of_int_numeral power_int_def) simp
  have b: "2 powi e \<le> x" "x < 2 powi (e + 1)"
    using binaryExponent_bounds [of x] x1 by (simp_all add: e_def)
  have e52: "e \<le> 52"
  proof (rule ccontr)
    assume "\<not> e \<le> 52"
    then have "(2::rat) powi 53 \<le> 2 powi e"
      by (intro power_int_increasing) simp_all
    then show False
      using b(1) x53 by linarith
  qed
  define k where "k = nat (52 - e)"
  have ek: "e - 52 = - int k"
    using e52 by (simp add: k_def)
  have p: "2 powi (e - 52) = 1 / (2::rat) ^ k"
    unfolding ek by (simp only: power_int_minus power_int_of_nat inverse_eq_divide)
  have "x / (1 / (2::rat) ^ k) = of_int (n * 2 ^ k)"
    by (simp add: x_def)
  then have "roundHalfEven (x / 2 powi (e - 52)) = n * 2 ^ k"
    unfolding p by (simp only: roundHalfEven_of_int)
  then have "toDouble x = of_int (n * 2 ^ k) * (1 / 2 ^ k)"
    using toDouble_certificate [OF b] by (simp only: p)
  also have "\<dots> = of_int n"
    by simp
  finally show ?thesis
    by (simp only: x_def)
qed

lemma example_tie:
  "toDouble (9016127289158533 / 2 ^ 42) = 2254031822289633 / 2 ^ 40"
proof -
  have p: "(2::rat) powi (11 - 52) = 1 / 2 ^ 41"
    by (simp add: power_int_def power_divide inverse_eq_divide)
  have q: "(9016127289158533 / 2 ^ 42) / (1 / (2::rat) ^ 41) = 9016127289158533 / 2"
    by simp
  have f: "\<lfloor>9016127289158533 / (2::rat)\<rfloor> = 4508063644579266"
    by (rule floor_unique) simp_all
  have r: "roundHalfEven (9016127289158533 / 2) = 4508063644579266"
    by (simp add: roundHalfEven_def Let_def f)
  have "toDouble (9016127289158533 / 2 ^ 42)
          = of_int (roundHalfEven ((9016127289158533 / 2 ^ 42) / 2 powi (11 - 52)))
              * 2 powi (11 - 52)"
    by (rule toDouble_certificate) (simp_all add: power_int_def)
  also have "\<dots> = of_int 4508063644579266 * (1 / 2 ^ 41)"
    by (simp only: p q r)
  also have "\<dots> = 2254031822289633 / 2 ^ 40"
    by simp
  finally show ?thesis .
qed

section \<open>Price calculator and normalizer\<close>

lemma calculateTotal_selected:
  assumes "find (\<lambda>p. opt_id p = selectedAnimation st) (animationPackages st) = Some tier"
    and "userCount st \<le> 50"
  shows "calculateTotal st =
    st\<lparr>isCustomPricing := False,
       totalPrice := numAdd (opt_price tier) (numOfInt (50 * userCount st))\<rparr>"
  using assms by (simp add: calculateTotal_def USER_PRICE_def)

lemma numOfInt_exact:
  assumes "1 \<le> u" and "u \<le> 50"
  shows "numOfInt (50 * u) = Num (of_int (50 * u))"
proof -
  have "0 < 50 * u" "50 * u < 2 ^ 53"
    using assms by simp_all
  then show ?thesis
    unfolding numOfInt_def by (simp only: toDouble_of_int)
qed

lemma price_is_double: "toDouble (2199155196947333 / 2 ^ 42) = 2199155196947333 / 2 ^ 42"
proof -
  have p: "(2::rat) powi (8 - 52) = 1 / 2 ^ 44"
    by (simp add: power_int_def power_divide inverse_eq_divide)
  have q: "(2199155196947333 / 2 ^ 42) / (1 / (2::rat) ^ 44) = of_int 8796620787789332"
    by simp
  have "toDouble (2199155196947333 / 2 ^ 42)
          = of_int (roundHalfEven ((2199155196947333 / 2 ^ 42) / 2 powi (8 - 52)))
              * 2 powi (8 - 52)"
    by (rule toDouble_certificate) (simp_all add: power_int_def)
  also have "\<dots> = of_int 8796620787789332 * (1 / 2 ^ 44)"
    by (simp only: p q roundHalfEven_of_int)
  also have "\<dots> = 2199155196947333 / 2 ^ 42"
    by simp
  finally show ?thesis .
qed

text \<open>
  C3, amended. When the selected id is the id of a tier and the user count is between 1
  and 50, the price effect leaves the custom-quote flag false and the total at the sum,
  in double arithmetic, of the tier's base price and 50 per user: for a base price \<open>p\<close>
  the total is the double nearest to \<open>p + 50 u\<close>, which is \<open>p + 50 u\<close> itself when that
  is a double. The deposit expression is that total halved and rounded.
\<close>

theorem C3_price:
  assumes "find (\<lambda>p. opt_id p = selectedAnimation st) (animationPackages st) = Some tier"
    and "1 \<le> userCount st" and "userCount st \<le> 50"
  shows "totalPrice (calculateTotal st)
           = numAdd (opt_price tier) (Num (of_int (50 * userCount st)))
         \<and> \<not> isCustomPricing (calculateTotal st)
         \<and> depositShown (calculateTotal st)
             = mathRound (numHalf (totalPrice (calculateTotal st)))
         \<and> (\<forall>p. opt_price tier = Num p \<longrightarrow>
               totalPrice (calculateTotal st)
                 = Num (toDouble (p + 50 * of_int (userCount st)))
               \<and> depositShown (calculateTotal st)
                   = Num (of_int (round (toDouble (p + 50 * of_int (userCount st)) / 2)))
               \<and> (toDouble (p + 50 * of_int (userCount st)) = p + 50 * of_int (userCount st)
                    \<longrightarrow> totalPrice (calculateTotal st) = Num (p + 50 * of_int (userCount st))))"
proof -
  have eq: "calculateTotal st =
    st\<lparr>isCustomPricing := False,
       totalPrice := numAdd (opt_price tier) (Num (of_int (50 * userCount st)))\<rparr>"
    using calculateTotal_selected [OF assms(1,3)] numOfInt_exact [OF assms(2,3)] by simp
  show ?thesis
    unfolding eq
    by (simp add: numAdd_def depositShown_def mathRound_def numHalf_def round_def)
qed

theorem C3_price_witness:
  "find (\<lambda>p. opt_id p = selectedAnimation starterSelected) (animationPackages starterSelected)
     = Some (formatPackage (\<lambda>s. Num 800) starterProduct)
   \<and> 1 \<le> userCount starterSelected \<and> userCount starterSelected \<le> 50
   \<and> totalPrice (calculateTotal starterSelected) = Num 850
   \<and> depositShown (calculateTotal starterSelected) = Num 425"
proof -
  have h: "find (\<lambda>p. opt_id p = selectedAnimation starterSelected)
             (animationPackages starterSelected)
           = Some (formatPackage (\<lambda>s. Num 800) starterProduct)"
    "1 \<le> userCount starterSelected" "userCount starterSelected \<le> 50"
    by code_simp+
  have p: "opt_price (formatPackage (\<lambda>s. Num 800) starterProduct) = Num 800"
    and u: "userCount starterSelected = 1"
    by code_simp+
  have d: "toDouble (800 + 50 * of_int 1) = 850"
    using toDouble_of_int [of 850] by simp
  have "\<forall>p. opt_price (formatPackage (\<lambda>s. Num 800) starterProduct) = Num p \<longrightarrow>
          totalPrice (calculateTotal starterSelected)
            = Num (toDouble (p + 50 * of_int (userCount starterSelected)))
          \<and> depositShown (calculateTotal starterSelected)
              = Num (of_int (round (toDouble (p + 50 * of_int (userCount starterSelected)) / 2)))
          \<and> (toDouble (p + 50 * of_int (userCount starterSelected))
                = p + 50 * of_int (userCount starterSelected)
              \<longrightarrow> totalPrice (calculateTotal starterSelected)
                    = Num (p + 50 * of_int (userCount starterSelected)))"
    using C3_price [OF h] by (elim conjE)
  then have "totalPrice (calculateTotal starterSelected)
               = Num (toDouble (800 + 50 * of_int 1))"
    and "depositShown (calculateTotal starterSelected)
           = Num (of_int (round (toDouble (800 + 50 * of_int 1) / 2)))"
    using p u by auto
  moreover have "round (850 / (2::rat)) = 425"
    by code_simp
  ultimately show ?thesis
    using h d by simp
qed

theorem C3_counterexample:
  "find (\<lambda>p. opt_id p = selectedAnimation roundingState) (animationPackages roundingState)
     = Some (hd (animationPackages roundingState))
   \<and> opt_price (hd (animationPackages roundingState)) = Num (2199155196947333 / 2 ^ 42)
   \<and> toDouble (2199155196947333 / 2 ^ 42) = 2199155196947333 / 2 ^ 42
   \<and> userCount roundingState = 31
   \<and> totalPrice (calculateTotal roundingState) = Num (2254031822289633 / 2 ^ 40)
   \<and> (2254031822289633 / 2 ^ 40 :: rat) \<noteq> 2199155196947333 / 2 ^ 42 + 50 * 31"
proof -
  have f: "find (\<lambda>p. opt_id p = selectedAnimation roundingState)
             (animationPackages roundingState)
           = Some (hd (animationPackages roundingState))"
    by (simp add: roundingState_def)
  have p: "opt_price (hd (animationPackages roundingState)) = Num (2199155196947333 / 2 ^ 42)"
    by (simp add: roundingState_def)
  have u: "userCount roundingState = 31"
    by (simp add: roundingState_def)
  have "calculateTotal roundingState =
    roundingState\<lparr>isCustomPricing := False,
       totalPrice := numAdd (opt_price (hd (animationPackages roundingState)))
                       (numOfInt (50 * userCount roundingState))\<rparr>"
    using f by (rule calculateTotal_selected) (simp add: u)
  then have "totalPrice (calculateTotal roundingState)
               = numAdd (Num (2199155196947333 / 2 ^ 42)) (Num (of_int (50 * 31)))"
    using numOfInt_exact [of 31] by (simp add: p u)
  also have "\<dots> = Num (toDouble (9016127289158533 / 2 ^ 42))"
    by (simp add: numAdd_def)
  finally have t: "totalPrice (calculateTotal roundingState) = Num (2254031822289633 / 2 ^ 40)"
    by (simp only: example_tie)
  have n: "(2254031822289633 / 2 ^ 40 :: rat) \<noteq> 2199155196947333 / 2 ^ 42 + 50 * 31"
    by simp
  show ?thesis
    using f p price_is_double u t n by (intro conjI)
qed

text \<open>
  C4. The price effect on a selection that matches no tier sets the total to 0 and
  returns: it does not touch the custom-quote flag. In the state reached by choosing a
  package, entering 51 users and then receiving a catalog without that package, the flag
  stays true.
\<close>

theorem C4_stale_flag:
  "find (\<lambda>p. opt_id p = selectedAnimation staleSelection) (animationPackages staleSelection)
     = None
   \<and> totalPrice (calculateTotal staleSelection) = Num 0
   \<and> isCustomPricing (calculateTotal staleSelection)"
  by code_simp

text \<open>
  C8. The normalizer makes one pricing tier per product, in the order of the products;
  the base price of a tier is the parse of the price string of the product's first
  variant, and 0 for a product without variants.
\<close>

theorem C8_normalizer:
  "animationPackages (processProducts parseFloat (st\<lparr>products := Some ps\<rparr>))
     = map (formatPackage parseFloat) ps
   \<and> length (animationPackages (processProducts parseFloat (st\<lparr>products := Some ps\<rparr>)))
       = length ps
   \<and> map opt_id (animationPackages (processProducts parseFloat (st\<lparr>products := Some ps\<rparr>)))
       = map product_id ps
   \<and> map opt_price (animationPackages (processProducts parseFloat (st\<lparr>products := Some ps\<rparr>)))
       = map (\<lambda>p. case variants p of [] \<Rightarrow> Num 0 | v # _ \<Rightarrow> parseFloat (variant_price v)) ps"
  by (simp add: processProducts_def formatPackage_def comp_def)

section \<open>Checkout handler and the user count\<close>

lemma handleGetStarted_cases:
  "(\<exists>message. handleGetStarted createCart st = failWith st message [])
   \<or> (\<exists>request message. createCart request = Inl message
         \<and> handleGetStarted createCart st = failWith st message [request])
   \<or> (\<exists>request cart. createCart request = Inr cart
         \<and> handleGetStarted createCart st =
             \<lparr>newState = st\<lparr>isSubmitting := False, error := None\<rparr>,
              cartRequests = [request], redirect = Some (checkoutUrl cart)\<rparr>)"
proof (cases "find (\<lambda>p. opt_id p = selectedAnimation st) (animationPackages st)")
  case None
  then have "handleGetStarted createCart st = failWith st ''Selected package not found'' []"
    by (simp add: handleGetStarted_def)
  then show ?thesis
    by blast
next
  case pkg: (Some selectedPackage)
  show ?thesis
  proof (cases "case products st of None \<Rightarrow> None
                | Some ps \<Rightarrow> find (\<lambda>p. product_id p = selectedAnimation st) ps")
    case None
    then have "handleGetStarted createCart st = failWith st ''Product not found'' []"
      using pkg by (simp add: handleGetStarted_def)
    then show ?thesis
      by blast
  next
    case prod: (Some product)
    show ?thesis
    proof (cases "findVariantForUserCount product (userCount st)")
      case None
      then have "handleGetStarted createCart st =
          failWith st (''No variant found for user count: '' @ toString (userCount st)) []"
        using pkg prod by (simp add: handleGetStarted_def)
      then show ?thesis
        by blast
    next
      case vid: (Some variantId)
      show ?thesis
      proof (cases "variantId = []")
        case True
        then have "handleGetStarted createCart st =
            failWith st (''No variant found for user count: '' @ toString (userCount st)) []"
          using pkg prod vid by (simp add: handleGetStarted_def)
        then show ?thesis
          by blast
      next
        case False
        let ?request = "\<lparr>req_variantId = variantId, req_quantity = 1,
              req_customAttributes = [(''User Count'', toString (userCount st))],
              req_sellingPlanId = ''gid://shopify/SellingPlan/3226403001''\<rparr>"
        show ?thesis
        proof (cases "createCart ?request")
          case (Inl message)
          then have "handleGetStarted createCart st = failWith st message [?request]"
            using pkg prod vid False by (simp add: handleGetStarted_def)
          then show ?thesis
            using Inl by blast
        next
          case (Inr cart)
          then have "handleGetStarted createCart st =
             \<lparr>newState = st\<lparr>isSubmitting := False, error := None\<rparr>,
              cartRequests = [?request], redirect = Some (checkoutUrl cart)\<rparr>"
            using pkg prod vid False by (simp add: handleGetStarted_def)
          then show ?thesis
            using Inr by blast
        qed
      qed
    qed
  qed
qed

lemma handleGetStarted_selection:
  "selectedAnimation (newState (handleGetStarted createCart st)) = selectedAnimation st
   \<and> userCount (newState (handleGetStarted createCart st)) = userCount st
   \<and> totalPrice (newState (handleGetStarted createCart st)) = totalPrice st
   \<and> isCustomPricing (newState (handleGetStarted createCart st)) = isCustomPricing st
   \<and> products (newState (handleGetStarted createCart st)) = products st
   \<and> animationPackages (newState (handleGetStarted createCart st)) = animationPackages st
   \<and> \<not> isSubmitting (newState (handleGetStarted createCart st))"
  using handleGetStarted_cases [of createCart st]
  by (elim disjE exE conjE) (simp_all add: failWith_def)

lemma handleGetStarted_requests:
  assumes "request \<in> set (cartRequests (handleGetStarted createCart st))"
    and "createCart request = Inl message"
  shows "handleGetStarted createCart st = failWith st message [request]"
  using handleGetStarted_cases [of createCart st] assms
  by (elim disjE exE conjE) (simp_all add: failWith_def)

text \<open>
  C9. When the cart service answers the handler's request with an error, the handler
  leaves the selected tier id, the user count, the total and the custom-quote flag as
  they were, stores the error message for display, clears the submitting flag (the
  button is disabled again only if nothing is selected) and does not redirect.
\<close>

theorem C9_failed_checkout:
  assumes "request \<in> set (cartRequests (handleGetStarted createCart st))"
    and "createCart request = Inl message"
  shows "selectedAnimation (newState (handleGetStarted createCart st)) = selectedAnimation st
         \<and> userCount (newState (handleGetStarted createCart st)) = userCount st
         \<and> totalPrice (newState (handleGetStarted createCart st)) = totalPrice st
         \<and> isCustomPricing (newState (handleGetStarted createCart st)) = isCustomPricing st
         \<and> error (newState (handleGetStarted createCart st)) = Some (''Error: '' @ message)
         \<and> \<not> isSubmitting (newState (handleGetStarted createCart st))
         \<and> submitDisabled (newState (handleGetStarted createCart st))
             = (selectedAnimation st = [])
         \<and> redirect (handleGetStarted createCart st) = None"
proof -
  have "handleGetStarted createCart st = failWith st message [request]"
    using assms by (rule handleGetStarted_requests)
  then show ?thesis
    by (simp add: failWith_def submitDisabled_def)
qed

theorem C9_failed_checkout_witness:
  "cartRequests (handleGetStarted failingCart starterSelected)
     = [\<lparr>req_variantId = ''v1'', req_quantity = 1,
         req_customAttributes = [(''User Count'', ''1'')],
         req_sellingPlanId = ''gid://shopify/SellingPlan/3226403001''\<rparr>]
   \<and> failingCart \<lparr>req_variantId = ''v1'', req_quantity = 1,
         req_customAttributes = [(''User Count'', ''1'')],
         req_sellingPlanId = ''gid://shopify/SellingPlan/3226403001''\<rparr> = Inl ''Network error''
   \<and> userCount (newState (handleGetStarted failingCart starterSelected)) = 1
   \<and> totalPrice (newState (handleGetStarted failingCart starterSelected)) = Num 850
   \<and> error (newState (handleGetStarted failingCart starterSelected))
       = Some ''Error: Network error''
   \<and> \<not> submitDisabled (newState (handleGetStarted failingCart starterSelected))"
proof -
  let ?r = "\<lparr>req_variantId = ''v1'', req_quantity = 1,
         req_customAttributes = [(''User Count'', ''1'')],
         req_sellingPlanId = ''gid://shopify/SellingPlan/3226403001''\<rparr>"
  have c: "cartRequests (handleGetStarted failingCart starterSelected) = [?r]"
    by code_simp
  have h: "?r \<in> set (cartRequests (handleGetStarted failingCart starterSelected))"
    unfolding c by simp
  have f: "failingCart ?r = Inl ''Network error''"
    by (simp add: failingCart_def)
  have s: "userCount starterSelected = 1" "totalPrice starterSelected = Num 850"
    "selectedAnimation starterSelected \<noteq> []"
    by code_simp+
  show ?thesis
    using C9_failed_checkout [OF h f] c f s by simp
qed

lemma userCount_calculateTotal: "userCount (calculateTotal st) = userCount st"
  by (simp add: calculateTotal_def split: option.splits)

lemma userCount_processProducts: "userCount (processProducts parseFloat st) = userCount st"
  by (simp add: processProducts_def split: option.splits)

lemma userCount_handleEvent:
  "1 \<le> userCount st \<Longrightarrow> 1 \<le> userCount (handleEvent ev st)"
  by (cases ev) (simp_all add: handleEvent_def handleGetStarted_selection split: option.splits)

lemma userCount_step: "1 \<le> userCount st \<Longrightarrow> 1 \<le> userCount (step parseFloat st ev)"
  by (simp add: step_def userCount_calculateTotal userCount_processProducts
      userCount_handleEvent)

lemma userCount_foldl:
  "1 \<le> userCount st \<Longrightarrow> 1 \<le> userCount (foldl (step parseFloat) st evs)"
  by (induction evs arbitrary: st) (simp_all add: userCount_step)

text \<open>
  C10. The user count starts at 1, it is at least 1 in every state a session reaches by
  any sequence of events, and the decrement button, the increment button and the numeric
  input each leave it at least 1 there.
\<close>

theorem C10_userCount:
  "userCount (initialState initialProducts) = 1
   \<and> 1 \<le> userCount (run parseFloat initialProducts evs)
   \<and> 1 \<le> userCount (handleEvent DecrementClick (run parseFloat initialProducts evs))
   \<and> 1 \<le> userCount (handleEvent IncrementClick (run parseFloat initialProducts evs))
   \<and> 1 \<le> userCount (handleEvent (CountInput text) (run parseFloat initialProducts evs))"
proof -
  have init: "userCount (initialState initialProducts) = 1"
    by (simp add: initialState_def)
  have r: "1 \<le> userCount (run parseFloat initialProducts evs)"
    unfolding run_def
    by (rule userCount_foldl)
      (simp add: userCount_calculateTotal userCount_processProducts init)
  show ?thesis
    using init r by (simp add: userCount_handleEvent)
qed

section \<open>Resolution up to 50 users\<close>

lemma set_insertBy: "set (insertBy cmp x xs) = insert x (set xs)"
  by (induction xs) auto

lemma sortBy_Cons: "sortBy cmp (x # xs) = insertBy cmp x (sortBy cmp xs)"
  by (simp add: sortBy_def)

lemma sortBy_Nil: "sortBy cmp [] = []"
  by (simp add: sortBy_def)

lemma set_sortBy: "set (sortBy cmp xs) = set xs"
  by (induction xs) (simp_all add: sortBy_Cons sortBy_Nil set_insertBy)

lemma sortBy_head:
  fixes k :: "'a \<Rightarrow> int"
  assumes "xs \<noteq> []"
  shows "\<exists>m ms. sortBy (\<lambda>a b. k b - k a) xs = m # ms
           \<and> find (\<lambda>v. k v = Max (k ` set xs)) xs = Some m"
  using assms
proof (induction xs rule: list_nonempty_induct)
  case (single x)
  show ?case by (simp add: sortBy_Cons sortBy_Nil)
next
  case (cons x xs)
  then obtain m ms where s: "sortBy (\<lambda>a b. k b - k a) xs = m # ms"
    and f: "find (\<lambda>v. k v = Max (k ` set xs)) xs = Some m"
    by blast
  have km: "k m = Max (k ` set xs)"
    using f by (auto simp: find_Some_iff)
  have mx: "Max (k ` set (x # xs)) = max (k x) (Max (k ` set xs))"
    using cons.hyps by (simp add: Max_insert)
  show ?case
  proof (cases "k m \<le> k x")
    case True
    then show ?thesis
      using km mx by (simp add: sortBy_Cons s max_def)
  next
    case False
    then show ?thesis
      using km mx f by (simp add: sortBy_Cons s max_def)
  qed
qed

lemma map_of_find:
  "map_of opts k = map_option snd (find (\<lambda>option. fst option = k) opts)"
  by (induction opts) auto

lemma countOption_optionsOf:
  "countOption v = find (\<lambda>option. fst option = ''User Count'') (optionsOf v)"
  by (simp add: countOption_def optionsOf_def split: option.splits)

lemma specUserCount_countOption:
  "specUserCount v =
     (case countOption v of None \<Rightarrow> None | Some option \<Rightarrow> parseInt (snd option) (Some 10))"
  by (simp add: specUserCount_def map_of_find countOption_optionsOf split: option.splits)

lemma isValidVariant_spec:
  "isValidVariant u v = (case specUserCount v of None \<Rightarrow> False | Some c \<Rightarrow> c \<le> u)"
  by (simp add: isValidVariant_def specUserCount_countOption split: option.splits)

lemma extractUserCount_spec:
  "extractUserCount v = (case specUserCount v of None \<Rightarrow> 0 | Some c \<Rightarrow> c)"
  by (simp add: extractUserCount_def specUserCount_countOption split: option.splits)

lemma isExactMatch_spec:
  "isExactMatch u v = ((''User Count'', toString u) \<in> set (optionsOf v))"
proof (cases "selectedOptions v")
  case None
  then show ?thesis
    by (simp add: isExactMatch_def optionsOf_def)
next
  case (Some opts)
  have "(\<exists>option\<in>set opts. fst option = ''User Count'' \<and> snd option = toString u)
        = ((''User Count'', toString u) \<in> set opts)"
    by force
  then show ?thesis
    using Some by (simp add: isExactMatch_def optionsOf_def list_ex_iff)
qed

lemma specUserCount_option:
  assumes "specUserCount v = Some c"
  shows "\<exists>s. (''User Count'', s) \<in> set (optionsOf v) \<and> parseInt s (Some 10) = Some c"
  using assms
  by (auto simp: specUserCount_def split: option.splits dest: map_of_SomeD)

lemma isExactMatch_fun:
  "isExactMatch u = (\<lambda>v. (''User Count'', toString u) \<in> set (optionsOf v))"
  by (rule ext) (rule isExactMatch_spec)

lemma isValidVariant_fun:
  "isValidVariant u = (\<lambda>v. case specUserCount v of None \<Rightarrow> False | Some c \<Rightarrow> c \<le> u)"
  by (rule ext) (rule isValidVariant_spec)

lemma closest_choice:
  assumes below: "below = filter (isValidVariant u) vs" and ne: "below \<noteq> []"
  shows "\<exists>m ms. sortBy (\<lambda>a b. extractUserCount b - extractUserCount a) below = m # ms
           \<and> find (\<lambda>v. specUserCount v
                         = Some (Max (set (List.map_filter specUserCount below)))) below
               = Some m"
proof -
  have some: "specUserCount v = Some (extractUserCount v)" if "v \<in> set below" for v
    using that below
    by (auto simp: isValidVariant_spec extractUserCount_spec split: option.splits)
  have "set (List.map_filter specUserCount below) = extractUserCount ` set below"
    using some by (force simp: map_filter_def image_iff)
  then have "find (\<lambda>v. specUserCount v
                         = Some (Max (set (List.map_filter specUserCount below)))) below
             = find (\<lambda>v. extractUserCount v = Max (extractUserCount ` set below)) below"
    using some by (intro find_cong) auto
  then show ?thesis
    using sortBy_head [OF ne, of extractUserCount] by simp
qed

lemma resolver_reference:
  assumes "variants p \<noteq> []" and "u \<le> 50"
  shows "findVariantForUserCount p u =
    (case referenceChoice p u of
       None \<Rightarrow> None
     | Some (r, v) \<Rightarrow>
         if r = ClosestBelow \<and> variant_id v = [] then None else Some (variant_id v))"
proof -
  obtain first rest where vs: "variants p = first # rest"
    using assms(1) by (cases "variants p") auto
  let ?below = "filter (isValidVariant u) (variants p)"
  show ?thesis
  proof (cases "find (isExactMatch u) (variants p)")
    case (Some v)
    then show ?thesis
      using assms(2) vs
      by (simp add: findVariantForUserCount_def referenceChoice_def
          isExactMatch_fun [symmetric])
  next
    case None
    show ?thesis
    proof (cases "?below = []")
      case True
      then show ?thesis
        using assms(2) vs None
        by (simp add: findVariantForUserCount_def referenceChoice_def sortBy_Nil
            isExactMatch_fun [symmetric] isValidVariant_fun [symmetric] Let_def)
    next
      case False
      from closest_choice [OF refl False]
      obtain m ms where "sortBy (\<lambda>a b. extractUserCount b - extractUserCount a) ?below = m # ms"
        and "find (\<lambda>v. specUserCount v
                         = Some (Max (set (List.map_filter specUserCount ?below)))) ?below
               = Some m"
        by blast
      then show ?thesis
        using assms(2) vs None False
        by (simp add: findVariantForUserCount_def referenceChoice_def
            isExactMatch_fun [symmetric] isValidVariant_fun [symmetric] Let_def)
    qed
  qed
qed

lemma natDigits_head:
  "\<exists>c cs. natDigits n = c # cs \<and> c \<in> set ''0123456789''"
proof (induction n rule: natDigits.induct)
  case (1 n)
  show ?case
  proof (cases "n < 10")
    case True
    then have "n \<in> {0, 1, 2, 3, 4, 5, 6, 7, 8, 9}"
      by auto
    then show ?thesis
      by (subst natDigits.simps) (use True in auto)
  next
    case False
    with 1 obtain c cs where "natDigits (n div 10) = c # cs" "c \<in> set ''0123456789''"
      by blast
    then show ?thesis
      by (subst natDigits.simps) (use False in simp)
  qed
qed

lemma digits_parse:
  "list_all (\<lambda>c. \<not> isWhite c \<and> c \<noteq> CHR ''+'' \<and> c \<noteq> CHR ''-'' \<and> isDigitOf 10 c)
     ''0123456789''"
  by code_simp

lemma parseInt_toString:
  assumes "0 \<le> u"
  shows "parseInt (toString u) (Some 10) \<noteq> None"
proof -
  obtain c cs where d: "toString u = c # cs" "c \<in> set ''0123456789''"
    using natDigits_head [of "nat u"] assms by (auto simp: toString_def)
  have "\<not> isWhite c \<and> c \<noteq> CHR ''+'' \<and> c \<noteq> CHR ''-'' \<and> isDigitOf 10 c"
    using d(2) digits_parse unfolding list_all_iff by blast
  then show ?thesis
    unfolding d(1) by (simp add: parseInt_def Let_def hexPrefix_def)
qed

lemma find_SomeD: "find P xs = Some x \<Longrightarrow> x \<in> set xs \<and> P x"
  by (auto simp: find_Some_iff)

lemma referenceChoice_Some:
  assumes "referenceChoice p u = Some (r, v)"
  shows "v \<in> set (variants p)
         \<and> (r = ExactMatch \<longrightarrow> (''User Count'', toString u) \<in> set (optionsOf v))
         \<and> (r = ClosestBelow \<longrightarrow> (\<exists>c. specUserCount v = Some c \<and> c \<le> u))
         \<and> (r = FirstVariant \<longrightarrow> v = hd (variants p))"
proof (cases "find (\<lambda>v. (''User Count'', toString u) \<in> set (optionsOf v)) (variants p)")
  case (Some w)
  then have "r = ExactMatch" "v = w"
    using assms by (simp_all add: referenceChoice_def)
  then show ?thesis
    using find_SomeD [OF Some] by simp
next
  case None
  let ?below = "filter (\<lambda>v. case specUserCount v of None \<Rightarrow> False | Some c \<Rightarrow> c \<le> u)
                  (variants p)"
  show ?thesis
  proof (cases "?below = []")
    case True
    then have "variants p \<noteq> []" "r = FirstVariant" "v = hd (variants p)"
      using assms None by (auto simp: referenceChoice_def Let_def split: list.splits)
    then show ?thesis
      by simp
  next
    case False
    then have "r = ClosestBelow"
      and "find (\<lambda>v. specUserCount v
                        = Some (Max (set (List.map_filter specUserCount ?below)))) ?below
           = Some v"
      using assms None by (auto simp: referenceChoice_def Let_def)
    then have "r = ClosestBelow" "v \<in> set ?below"
      using find_SomeD by fast+
    then show ?thesis
      by (auto split: option.splits)
  qed
qed

lemma referenceChoice_total:
  assumes "variants p \<noteq> []"
  shows "\<exists>r v. referenceChoice p u = Some (r, v)"
proof (cases "find (\<lambda>v. (''User Count'', toString u) \<in> set (optionsOf v)) (variants p)")
  case (Some w)
  then show ?thesis
    by (simp add: referenceChoice_def)
next
  case None
  let ?below = "filter (isValidVariant u) (variants p)"
  show ?thesis
  proof (cases "?below = []")
    case True
    then show ?thesis
      using assms None
      by (auto simp: referenceChoice_def Let_def isValidVariant_fun [symmetric]
          split: list.splits)
  next
    case False
    from closest_choice [OF refl False]
    obtain m where "find (\<lambda>v. specUserCount v
                         = Some (Max (set (List.map_filter specUserCount ?below)))) ?below
               = Some m"
      by blast
    then show ?thesis
      using None False
      by (simp add: referenceChoice_def Let_def isValidVariant_fun [symmetric])
  qed
qed

lemma referenceChoice_parseable:
  assumes "referenceChoice p u = Some (r, v)" and "r \<noteq> FirstVariant" and "0 \<le> u"
  shows "\<exists>s. (''User Count'', s) \<in> set (optionsOf v) \<and> parseInt s (Some 10) \<noteq> None"
proof (cases r)
  case ExactMatch
  then have "(''User Count'', toString u) \<in> set (optionsOf v)"
    using referenceChoice_Some [OF assms(1)] by simp
  then show ?thesis
    using parseInt_toString [OF assms(3)] by blast
next
  case ClosestBelow
  then obtain c where "specUserCount v = Some c"
    using referenceChoice_Some [OF assms(1)] by blast
  then show ?thesis
    using specUserCount_option by fastforce
next
  case FirstVariant
  then show ?thesis
    using assms(2) by simp
qed

lemma referenceChoice_unparseable:
  assumes "variants p \<noteq> []" and "0 \<le> u"
    and "\<forall>v\<in>set (variants p). \<forall>s. (''User Count'', s) \<in> set (optionsOf v)
           \<longrightarrow> parseInt s (Some 10) = None"
  shows "referenceChoice p u = Some (FirstVariant, hd (variants p))"
proof -
  obtain r v where c: "referenceChoice p u = Some (r, v)"
    using referenceChoice_total [OF assms(1)] by blast
  have mem: "v \<in> set (variants p)"
    using referenceChoice_Some [OF c] by simp
  have "r = FirstVariant"
  proof (rule ccontr)
    assume "r \<noteq> FirstVariant"
    then obtain s where "(''User Count'', s) \<in> set (optionsOf v)"
      "parseInt s (Some 10) \<noteq> None"
      using referenceChoice_parseable [OF c _ assms(2)] by blast
    then show False
      using assms(3) mem by auto
  qed
  then show ?thesis
    using referenceChoice_Some [OF c] c by simp
qed

text \<open>
  C2, amended. For a product with at least one variant and a user count from 1 to 50 the
  resolver agrees with the reference choice: the first variant with an option named
  "User Count" whose value is the decimal string of the count; otherwise, among the
  variants whose "User Count" option parses to an integer at most the count, the first in
  source order with the greatest value; otherwise the first variant. The id of the chosen
  variant is returned, except that a closest match whose id is the empty string gives no
  result; when no variant id is empty the resolver is the reference resolver. A variant
  chosen by the first two rules has a "User Count" option that parses, and when no
  variant has one the first variant is returned.
\<close>

theorem C2_resolution:
  assumes "variants p \<noteq> []" and "1 \<le> u" and "u \<le> 50"
  shows "findVariantForUserCount p u =
           (case referenceChoice p u of
              None \<Rightarrow> None
            | Some (r, v) \<Rightarrow>
                if r = ClosestBelow \<and> variant_id v = [] then None else Some (variant_id v))
         \<and> ((\<forall>v\<in>set (variants p). variant_id v \<noteq> []) \<longrightarrow>
               findVariantForUserCount p u = referenceResolve p u)
         \<and> (\<forall>r v. referenceChoice p u = Some (r, v) \<and> r \<noteq> FirstVariant \<longrightarrow>
               (\<exists>s. (''User Count'', s) \<in> set (optionsOf v) \<and> parseInt s (Some 10) \<noteq> None))
         \<and> ((\<forall>v\<in>set (variants p). \<forall>s. (''User Count'', s) \<in> set (optionsOf v)
                 \<longrightarrow> parseInt s (Some 10) = None) \<longrightarrow>
               referenceChoice p u = Some (FirstVariant, hd (variants p))
               \<and> findVariantForUserCount p u = Some (variant_id (hd (variants p))))"
proof -
  have u0: "0 \<le> u"
    using assms(2) by simp
  have code: "findVariantForUserCount p u =
           (case referenceChoice p u of
              None \<Rightarrow> None
            | Some (r, v) \<Rightarrow>
                if r = ClosestBelow \<and> variant_id v = [] then None else Some (variant_id v))"
    using assms(1,3) by (rule resolver_reference)
  have ids: "findVariantForUserCount p u = referenceResolve p u"
    if "\<forall>v\<in>set (variants p). variant_id v \<noteq> []"
  proof -
    obtain r v where c: "referenceChoice p u = Some (r, v)"
      using referenceChoice_total [OF assms(1)] by blast
    then have "variant_id v \<noteq> []"
      using referenceChoice_Some [OF c] that by simp
    then show ?thesis
      using code c by (simp add: referenceResolve_def)
  qed
  have parse: "\<exists>s. (''User Count'', s) \<in> set (optionsOf v) \<and> parseInt s (Some 10) \<noteq> None"
    if "referenceChoice p u = Some (r, v) \<and> r \<noteq> FirstVariant" for r v
    using that referenceChoice_parseable [of p u r v] u0 by simp
  have first: "referenceChoice p u = Some (FirstVariant, hd (variants p))
               \<and> findVariantForUserCount p u = Some (variant_id (hd (variants p)))"
    if "\<forall>v\<in>set (variants p). \<forall>s. (''User Count'', s) \<in> set (optionsOf v)
                 \<longrightarrow> parseInt s (Some 10) = None"
  proof -
    have "referenceChoice p u = Some (FirstVariant, hd (variants p))"
      using assms(1) u0 that by (rule referenceChoice_unparseable)
    then show ?thesis
      using code by simp
  qed
  show ?thesis
  proof (intro conjI allI impI)
    show "findVariantForUserCount p u =
           (case referenceChoice p u of
              None \<Rightarrow> None
            | Some (r, v) \<Rightarrow>
                if r = ClosestBelow \<and> variant_id v = [] then None else Some (variant_id v))"
      by (rule code)
  qed (use ids parse first in blast)+
qed

theorem C2_resolution_witness:
  "variants tierProduct \<noteq> [] \<and> (1::int) \<le> 35 \<and> (35::int) \<le> 50
   \<and> list_all (\<lambda>v. variant_id v \<noteq> []) (variants tierProduct)
   \<and> referenceResolve tierProduct 35 = Some ''v20a''
   \<and> findVariantForUserCount tierProduct 35 = Some ''v20a''
   \<and> variants unparsedProduct \<noteq> [] \<and> (1::int) \<le> 5 \<and> (5::int) \<le> 50
   \<and> list_all (\<lambda>v. list_all (\<lambda>option. fst option = ''User Count''
                        \<longrightarrow> parseInt (snd option) (Some 10) = None) (optionsOf v))
        (variants unparsedProduct)
   \<and> findVariantForUserCount unparsedProduct 5 = Some ''w-default''"
proof -
  have h: "variants tierProduct \<noteq> []" "(1::int) \<le> 35" "(35::int) \<le> 50"
    by (simp_all add: tierProduct_def)
  have ids: "list_all (\<lambda>v. variant_id v \<noteq> []) (variants tierProduct)"
    by code_simp
  have r: "referenceResolve tierProduct 35 = Some ''v20a''"
    by code_simp
  have "(\<forall>v\<in>set (variants tierProduct). variant_id v \<noteq> []) \<longrightarrow>
          findVariantForUserCount tierProduct 35 = referenceResolve tierProduct 35"
    using C2_resolution [OF h] by (elim conjE)
  then have a: "findVariantForUserCount tierProduct 35 = Some ''v20a''"
    using ids r by (simp add: list_all_iff)
  have k: "variants unparsedProduct \<noteq> []" "(1::int) \<le> 5" "(5::int) \<le> 50"
    by (simp_all add: unparsedProduct_def)
  have un: "list_all (\<lambda>v. list_all (\<lambda>option. fst option = ''User Count''
                        \<longrightarrow> parseInt (snd option) (Some 10) = None) (optionsOf v))
        (variants unparsedProduct)"
    by code_simp
  have hd: "variant_id (hd (variants unparsedProduct)) = ''w-default''"
    by code_simp
  have "(\<forall>v\<in>set (variants unparsedProduct). \<forall>s. (''User Count'', s) \<in> set (optionsOf v)
                 \<longrightarrow> parseInt s (Some 10) = None) \<longrightarrow>
               referenceChoice unparsedProduct 5
                 = Some (FirstVariant, hd (variants unparsedProduct))
               \<and> findVariantForUserCount unparsedProduct 5
                   = Some (variant_id (hd (variants unparsedProduct)))"
    using C2_resolution [OF k] by (elim conjE)
  moreover have "\<forall>v\<in>set (variants unparsedProduct). \<forall>s.
      (''User Count'', s) \<in> set (optionsOf v) \<longrightarrow> parseInt s (Some 10) = None"
    using un unfolding list_all_iff by fastforce
  ultimately have b: "findVariantForUserCount unparsedProduct 5 = Some ''w-default''"
    using hd by simp
  show ?thesis
    using h ids r a k un b by simp
qed

theorem C2_counterexample:
  "variants emptyIdProduct \<noteq> [] \<and> (1::int) \<le> 2 \<and> (2::int) \<le> 50
   \<and> referenceResolve emptyIdProduct 2 = Some []
   \<and> findVariantForUserCount emptyIdProduct 2 = None"
  by code_simp

section \<open>Failure of the resolver\<close>

lemma resolver_upto50:
  assumes "variants p \<noteq> []" and "u \<le> 50"
  shows "(\<exists>w\<in>set (variants p). findVariantForUserCount p u = Some (variant_id w))
         \<or> (\<exists>m\<in>set (variants p). isValidVariant u m \<and> variant_id m = []
               \<and> findVariantForUserCount p u = None)"
proof -
  obtain first rest where vs: "variants p = first # rest"
    using assms(1) by (cases "variants p") auto
  let ?sorted = "sortBy (\<lambda>a b. extractUserCount b - extractUserCount a)
                   (filter (isValidVariant u) (variants p))"
  show ?thesis
  proof (cases "find (isExactMatch u) (variants p)")
    case (Some w)
    then have "findVariantForUserCount p u = Some (variant_id w)"
      using assms(2) vs by (simp add: findVariantForUserCount_def)
    then show ?thesis
      using find_SomeD [OF Some] by blast
  next
    case None
    show ?thesis
    proof (cases ?sorted)
      case Nil
      then have "findVariantForUserCount p u = Some (variant_id first)"
        using assms(2) vs None by (simp add: findVariantForUserCount_def)
      then show ?thesis
        using vs by auto
    next
      case (Cons m ms)
      then have "m \<in> set ?sorted"
        by simp
      then have mem: "m \<in> set (variants p)" "isValidVariant u m"
        by (simp_all add: set_sortBy)
      have "findVariantForUserCount p u
              = (if variant_id m = [] then None else Some (variant_id m))"
        using assms(2) vs None Cons by (simp add: findVariantForUserCount_def)
      then show ?thesis
        using mem by (cases "variant_id m = []") auto
    qed
  qed
qed

lemma quoteVariants_nonempty:
  "premiumQuoteVariant \<noteq> [] \<and> essentialQuoteVariant \<noteq> [] \<and> starterQuoteVariant \<noteq> []"
  by (simp add: premiumQuoteVariant_def essentialQuoteVariant_def starterQuoteVariant_def)

lemma resolver_some:
  assumes "variants p \<noteq> []" and "\<forall>v\<in>set (variants p). variant_id v \<noteq> []"
  shows "\<exists>i. findVariantForUserCount p u = Some i \<and> i \<noteq> []"
proof (cases "50 < u")
  case True
  show ?thesis
    using large_order [OF assms(1) True] quoteVariants_nonempty by simp
next
  case False
  then have "u \<le> 50"
    by simp
  from resolver_upto50 [OF assms(1) this] show ?thesis
    using assms(2) by auto
qed

lemma resolver_none:
  assumes "variants p \<noteq> []" and "findVariantForUserCount p u = None"
  shows "u \<le> 50 \<and> (\<exists>m\<in>set (variants p). isValidVariant u m \<and> variant_id m = [])"
proof (cases "50 < u")
  case True
  show ?thesis
    using large_order [OF assms(1) True] assms(2) by simp
next
  case False
  then have le: "u \<le> 50"
    by simp
  from resolver_upto50 [OF assms(1) le] show ?thesis
    using assms(2) le by auto
qed

lemma handleGetStarted_no_variant:
  assumes "(case products st of None \<Rightarrow> None
            | Some ps \<Rightarrow> find (\<lambda>q. product_id q = selectedAnimation st) ps) = Some p"
    and "findVariantForUserCount p (userCount st) = None"
  shows "\<exists>message. handleGetStarted createCart st = failWith st message []"
proof (cases "find (\<lambda>p. opt_id p = selectedAnimation st) (animationPackages st)")
  case None
  then have "handleGetStarted createCart st = failWith st ''Selected package not found'' []"
    by (simp add: handleGetStarted_def)
  then show ?thesis
    by blast
next
  case (Some selectedPackage)
  then have "handleGetStarted createCart st =
      failWith st (''No variant found for user count: '' @ toString (userCount st)) []"
    using assms by (simp add: handleGetStarted_def)
  then show ?thesis
    by blast
qed

text \<open>
  C5, amended. The resolver returns no id for a product without variants. For a product
  with at least one variant it returns an id, a non-empty one when no variant id is
  empty; it returns nothing only when the user count is at most 50 and the closest match
  is a variant whose id is the empty string. Whenever the resolver returns nothing for
  the selected product, the handler sends no cart request and does not redirect: it
  stores an error message and clears the submitting flag.
\<close>

theorem C5_resolver_failure:
  "(variants p = [] \<longrightarrow> findVariantForUserCount p u = None)
   \<and> (variants p \<noteq> [] \<and> (\<forall>v\<in>set (variants p). variant_id v \<noteq> []) \<longrightarrow>
         (\<exists>i. findVariantForUserCount p u = Some i \<and> i \<noteq> []))
   \<and> (variants p \<noteq> [] \<and> findVariantForUserCount p u = None \<longrightarrow>
         u \<le> 50 \<and> (\<exists>m\<in>set (variants p). isValidVariant u m \<and> variant_id m = []))
   \<and> (\<forall>createCart (st::CalcState).
         (case products st of None \<Rightarrow> None
          | Some ps \<Rightarrow> find (\<lambda>q. product_id q = selectedAnimation st) ps) = Some p
         \<and> userCount st = u \<and> findVariantForUserCount p u = None \<longrightarrow>
         cartRequests (handleGetStarted createCart st) = []
         \<and> redirect (handleGetStarted createCart st) = None
         \<and> error (newState (handleGetStarted createCart st)) \<noteq> None
         \<and> \<not> isSubmitting (newState (handleGetStarted createCart st)))"
proof (intro conjI allI impI)
  assume "variants p = []"
  then show "findVariantForUserCount p u = None"
    by (simp add: findVariantForUserCount_def)
next
  assume "variants p \<noteq> [] \<and> (\<forall>v\<in>set (variants p). variant_id v \<noteq> [])"
  then show "\<exists>i. findVariantForUserCount p u = Some i \<and> i \<noteq> []"
    using resolver_some by blast
next
  assume a: "variants p \<noteq> [] \<and> findVariantForUserCount p u = None"
  then show "u \<le> 50"
    using resolver_none by blast
  from a show "\<exists>m\<in>set (variants p). isValidVariant u m \<and> variant_id m = []"
    using resolver_none by blast
next
  fix createCart and st :: CalcState
  assume a: "(case products st of None \<Rightarrow> None
          | Some ps \<Rightarrow> find (\<lambda>q. product_id q = selectedAnimation st) ps) = Some p
         \<and> userCount st = u \<and> findVariantForUserCount p u = None"
  then obtain message where m: "handleGetStarted createCart st = failWith st message []"
    using handleGetStarted_no_variant [of st p createCart] by auto
  show "cartRequests (handleGetStarted createCart st) = []"
    and "redirect (handleGetStarted createCart st) = None"
    and "error (newState (handleGetStarted createCart st)) \<noteq> None"
    and "\<not> isSubmitting (newState (handleGetStarted createCart st))"
    unfolding m by (simp_all add: failWith_def)
qed

theorem C5_resolver_failure_witness:
  "variants zeroVariantProduct = []
   \<and> findVariantForUserCount zeroVariantProduct 10 = None
   \<and> products zeroVariantSelected = Some [zeroVariantProduct]
   \<and> selectedAnimation zeroVariantSelected = product_id zeroVariantProduct
   \<and> userCount zeroVariantSelected = 10
   \<and> cartRequests (handleGetStarted failingCart zeroVariantSelected) = []
   \<and> redirect (handleGetStarted failingCart zeroVariantSelected) = None
   \<and> variants tierProduct \<noteq> []
   \<and> list_all (\<lambda>v. variant_id v \<noteq> []) (variants tierProduct)
   \<and> (\<exists>i. findVariantForUserCount tierProduct 7 = Some i \<and> i \<noteq> [])"
proof -
  note t = C5_resolver_failure [of zeroVariantProduct 10]
  have z: "variants zeroVariantProduct = []"
    by (simp add: zeroVariantProduct_def)
  have n: "findVariantForUserCount zeroVariantProduct 10 = None"
    using t z by blast
  have s: "products zeroVariantSelected = Some [zeroVariantProduct]"
    "selectedAnimation zeroVariantSelected = product_id zeroVariantProduct"
    "userCount zeroVariantSelected = 10"
    by code_simp+
  have "(case products zeroVariantSelected of None \<Rightarrow> None
          | Some ps \<Rightarrow> find (\<lambda>q. product_id q = selectedAnimation zeroVariantSelected) ps)
        = Some zeroVariantProduct"
    by (simp add: s)
  then have c: "cartRequests (handleGetStarted failingCart zeroVariantSelected) = []
    \<and> redirect (handleGetStarted failingCart zeroVariantSelected) = None"
    using t s(3) n by blast
  have v: "variants tierProduct \<noteq> []"
    by (simp add: tierProduct_def)
  have ids: "list_all (\<lambda>v. variant_id v \<noteq> []) (variants tierProduct)"
    by code_simp
  then have "\<forall>v\<in>set (variants tierProduct). variant_id v \<noteq> []"
    by (simp add: list_all_iff)
  then have e: "\<exists>i. findVariantForUserCount tierProduct 7 = Some i \<and> i \<noteq> []"
    using C5_resolver_failure [of tierProduct 7] v by blast
  show ?thesis
    using z n s c v ids e by simp
qed

theorem C5_counterexample:
  "variants emptyIdProduct \<noteq> []
   \<and> findVariantForUserCount emptyIdProduct 5 = None"
  by code_simp

end
